theory Spec2Isabelle
  imports Main "HOL-Library.Word"
begin

chapter \<open>Sparkplug explorer: ingestion pipeline\<close>

text \<open>
  A shallow embedding of the ingestion core of the Sparkplug explorer: the protocol
  client (sequence numbers, compression envelope, message handler, topic parser), the
  metric normaliser, the two-queue scheduler, the batch committer, the stored-value
  conversion and the status classifier. Each definition names the source function it
  follows. The definitions come first; the theorems follow in the second part.
\<close>

section \<open>Protocol client: outbound sequence numbers\<close>

text \<open>
  \<^verbatim>\<open>incrementSeqNum\<close> of \<^verbatim>\<open>clients/sparkplug/index.ts\<close>:
  \<^verbatim>\<open>if (this.seq == 256) { this.seq = 0; } return this.seq++;\<close>
  The field \<^verbatim>\<open>seq\<close> starts at 0. The model passes the field explicitly and returns the
  allocated value together with the field's new content.
\<close>

definition incrementSeqNum :: "nat \<Rightarrow> nat \<times> nat" where
  "incrementSeqNum seq = (let seq1 = (if seq = 256 then 0 else seq) in (seq1, seq1 + 1))"

text \<open>\<open>allocate k seq\<close>: the values returned by \<open>k\<close> consecutive allocations from \<open>seq\<close>.\<close>

fun allocate :: "nat \<Rightarrow> nat \<Rightarrow> nat list" where
  "allocate 0 seq = []"
| "allocate (Suc k) seq = (case incrementSeqNum seq of (v, seq') \<Rightarrow> v # allocate k seq')"

text \<open>The content of the field after \<open>k\<close> allocations.\<close>

fun seqAfter :: "nat \<Rightarrow> nat \<Rightarrow> nat" where
  "seqAfter 0 seq = seq"
| "seqAfter (Suc k) seq = seqAfter k (snd (incrementSeqNum seq))"

section \<open>Strings\<close>

text \<open>
  Topics and names are JavaScript strings. The model writes them as \<open>string\<close>; the
  three string operations the code uses on topics are \<^verbatim>\<open>split("/")\<close>,
  \<^verbatim>\<open>join("/")\<close> and \<^verbatim>\<open>startsWith\<close>. \<open>js_split c s\<close> cuts \<open>s\<close> at every
  occurrence of the separator \<open>c\<close>; as in JavaScript, a string with \<open>n\<close> separators
  gives \<open>n + 1\<close> parts and the empty string gives one empty part.
\<close>

fun js_split :: "char \<Rightarrow> string \<Rightarrow> string list" where
  "js_split c [] = [[]]"
| "js_split c (x # xs) =
     (if x = c then [] # js_split c xs
      else (case js_split c xs of [] \<Rightarrow> [[x]] | p # ps \<Rightarrow> (x # p) # ps))"

fun js_join :: "string \<Rightarrow> string list \<Rightarrow> string" where
  "js_join sep [] = []"
| "js_join sep [p] = p"
| "js_join sep (p # q # ps) = p @ sep @ js_join sep (q # ps)"

definition startsWith :: "string \<Rightarrow> string \<Rightarrow> bool" where
  "startsWith s pre = (take (length pre) s = pre)"

text \<open>\<^verbatim>\<open>parts[i]\<close>: \<open>None\<close> stands for \<^verbatim>\<open>undefined\<close>, read beyond the end of the array.\<close>

definition js_index :: "'a list \<Rightarrow> nat \<Rightarrow> 'a option" where
  "js_index xs i = (if i < length xs then Some (xs ! i) else None)"

section \<open>Topic parser\<close>

text \<open>
  \<^verbatim>\<open>MessageContext\<close>, \<^verbatim>\<open>parseTopic\<close> and \<^verbatim>\<open>parseCertificateTopic\<close> of
  \<^verbatim>\<open>clients/sparkplug/index.ts\<close>. The cast of \<^verbatim>\<open>parts[2]\<close> to the message-type
  union checks nothing at run time, so \<open>messageType\<close> is whatever the third segment is.
  \<open>deviceId = None\<close> stands for \<^verbatim>\<open>null\<close>.
\<close>

record MessageContext =
  namespace :: "string option"
  groupId :: "string option"
  messageType :: "string option"
  edgeNodeId :: "string option"
  deviceId :: "string option"
  otherParts :: "string list"

definition parseTopic :: "string \<Rightarrow> MessageContext" where
  "parseTopic topic =
     (let parts = js_split CHR ''/'' topic in
      \<lparr> namespace = js_index parts 0,
        groupId = js_index parts 1,
        messageType = js_index parts 2,
        edgeNodeId = js_index parts 3,
        deviceId = (if length parts \<ge> 5 then js_index parts 4 else None),
        otherParts = (if length parts > 5 then drop 5 parts else []) \<rparr>)"

definition parseCertificateTopic :: "string \<Rightarrow> MessageContext" where
  "parseCertificateTopic topic = parseTopic (js_join ''/'' (drop 2 (js_split CHR ''/'' topic)))"

section \<open>Ingestion scheduler\<close>

text \<open>
  The module-level state of \<^verbatim>\<open>index.ts\<close>: \<^verbatim>\<open>birthQueue\<close>, \<^verbatim>\<open>dataQueue\<close>,
  \<^verbatim>\<open>drainScheduled\<close>, \<^verbatim>\<open>timer\<close> (here: whether a timer is armed) and
  \<^verbatim>\<open>draining\<close>. The field \<open>drainedBatches\<close> is a history variable: the batches the
  drain loop has pulled off the queues and handed to the transaction step, in order.
  The payload type is a parameter.
\<close>

datatype EventType = DBIRTH | DDATA

record 'p InboundEvent =
  ev_type :: EventType
  ev_topic :: string
  ev_payload :: 'p
  ev_receivedAt :: nat

record 'p scheduler =
  birthQueue :: "'p InboundEvent list"
  dataQueue :: "'p InboundEvent list"
  drainScheduled :: bool
  timer :: bool
  draining :: bool
  drainedBatches :: "'p InboundEvent list list"

definition MAX_BATCH_MESSAGES :: nat where
  "MAX_BATCH_MESSAGES = 500"

definition initialScheduler :: "'p scheduler" where
  "initialScheduler =
     \<lparr> birthQueue = [], dataQueue = [], drainScheduled = False, timer = False,
       draining = False, drainedBatches = [] \<rparr>"

text \<open>
  \<^verbatim>\<open>while (batch.length < MAX_BATCH_MESSAGES && activeQueue.length)
    batch.push(activeQueue.shift()!)\<close>:
  returns the batch and what is left of the queue.
\<close>

fun fillBatch :: "'a list \<Rightarrow> 'a list \<Rightarrow> 'a list \<times> 'a list" where
  "fillBatch batch [] = (batch, [])"
| "fillBatch batch (e # activeQueue) =
     (if length batch < MAX_BATCH_MESSAGES then fillBatch (batch @ [e]) activeQueue
      else (batch, e # activeQueue))"

text \<open>
  \<^verbatim>\<open>drainQueues\<close> is asynchronous: it runs synchronously from the head of its
  \<^verbatim>\<open>while\<close> loop to the first \<^verbatim>\<open>await\<close> of the transaction, and is resumed at the
  loop head when the transaction has settled. \<open>drainLoop\<close> is one such run from the loop
  head: it picks the active queue, pulls a batch and suspends (still \<open>draining\<close>), or
  leaves the loop and clears \<open>draining\<close> when both queues are empty.
\<close>

definition drainLoop :: "'p scheduler \<Rightarrow> 'p scheduler" where
  "drainLoop s =
     (if birthQueue s \<noteq> [] \<or> dataQueue s \<noteq> [] then
        (let processingBirth = (birthQueue s \<noteq> []);
             activeQueue = (if processingBirth then birthQueue s else dataQueue s);
             (batch, rest) = fillBatch [] activeQueue
         in if batch = [] then s\<lparr>draining := False\<rparr>
            else if processingBirth
              then s\<lparr>birthQueue := rest, drainedBatches := drainedBatches s @ [batch]\<rparr>
              else s\<lparr>dataQueue := rest, drainedBatches := drainedBatches s @ [batch]\<rparr>)
      else s\<lparr>draining := False\<rparr>)"

definition drainQueues :: "'p scheduler \<Rightarrow> 'p scheduler" where
  "drainQueues s = (if draining s then s else drainLoop (s\<lparr>draining := True\<rparr>))"

definition scheduleDrain :: "'p scheduler \<Rightarrow> 'p scheduler" where
  "scheduleDrain s =
     (if drainScheduled s then s else s\<lparr>drainScheduled := True, timer := True\<rparr>)"

definition enqueueEvent :: "'p InboundEvent \<Rightarrow> 'p scheduler \<Rightarrow> 'p scheduler" where
  "enqueueEvent e s =
     (let s1 = (if ev_type e = DBIRTH then s\<lparr>birthQueue := birthQueue s @ [e]\<rparr>
                else s\<lparr>dataQueue := dataQueue s @ [e]\<rparr>)
      in if length (birthQueue s1) + length (dataQueue s1) \<ge> MAX_BATCH_MESSAGES
         then drainQueues (s1\<lparr>timer := False, drainScheduled := False\<rparr>)
         else scheduleDrain s1)"

text \<open>
  What can happen to the scheduler, one callback at a time: a message is enqueued; the
  timer armed by \<^verbatim>\<open>scheduleDrain\<close> fires; the transaction of the batch in flight
  settles (committed or rolled back) and the loop goes round; or an exception leaves
  the loop through its \<^verbatim>\<open>finally\<close>. A callback that is not enabled changes nothing.
\<close>

datatype 'p action =
    Message "'p InboundEvent"
  | TimerFires
  | BatchSettled
  | BatchThrown

fun step :: "'p scheduler \<Rightarrow> 'p action \<Rightarrow> 'p scheduler" where
  "step s (Message e) = enqueueEvent e s"
| "step s TimerFires =
     (if timer s then drainQueues (s\<lparr>timer := False, drainScheduled := False\<rparr>) else s)"
| "step s BatchSettled = (if draining s then drainLoop s else s)"
| "step s BatchThrown = (if draining s then s\<lparr>draining := False\<rparr> else s)"

definition run :: "'p action list \<Rightarrow> 'p scheduler" where
  "run acts = foldl step initialScheduler acts"

text \<open>The events enqueued by a run, in the order of their enqueueing.\<close>

fun arrivals :: "'p action list \<Rightarrow> 'p InboundEvent list" where
  "arrivals [] = []"
| "arrivals (Message e # acts) = e # arrivals acts"
| "arrivals (a # acts) = arrivals acts"

text \<open>\<open>before xs a b\<close>: an occurrence of \<open>a\<close> in \<open>xs\<close> is followed, later, by one of \<open>b\<close>.\<close>

fun before :: "'a list \<Rightarrow> 'a \<Rightarrow> 'a \<Rightarrow> bool" where
  "before [] a b = False"
| "before (x # xs) a b = ((x = a \<and> b \<in> set xs) \<or> before xs a b)"

text \<open>The events of the drained batches, in the order they left the queues.\<close>

definition drainedEvents :: "'p scheduler \<Rightarrow> 'p InboundEvent list" where
  "drainedEvents s = concat (drainedBatches s)"

text \<open>
  Two predicates used to reason about runs. \<open>birthsFirst es out\<close>: every update in \<open>out\<close>
  is preceded in \<open>out\<close> by each definition that precedes it in \<open>es\<close>. \<open>queuesOrdered es s\<close>:
  in state \<open>s\<close>, reached after the arrivals \<open>es\<close>, every arrival is in exactly one place
  (drained, or pending in a queue), each queue holds its own kind, and the drained
  events satisfy \<open>birthsFirst\<close>.
\<close>

definition birthsFirst :: "'p InboundEvent list \<Rightarrow> 'p InboundEvent list \<Rightarrow> bool" where
  "birthsFirst es out =
     (\<forall>d u. before es d u \<and> ev_type d = DBIRTH \<and> ev_type u = DDATA \<and> u \<in> set out
             \<longrightarrow> before out d u)"

definition queuesOrdered :: "'p InboundEvent list \<Rightarrow> 'p scheduler \<Rightarrow> bool" where
  "queuesOrdered es s =
     (distinct (drainedEvents s @ birthQueue s @ dataQueue s)
      \<and> set es = set (drainedEvents s) \<union> set (birthQueue s) \<union> set (dataQueue s)
      \<and> list_all (\<lambda>e. ev_type e = DBIRTH) (birthQueue s)
      \<and> list_all (\<lambda>e. ev_type e = DDATA) (dataQueue s)
      \<and> birthsFirst es (drainedEvents s))"

text \<open>
  Three events of one device \<open>A\<close>, used as a concrete run: two updates and one
  definition, the definition arriving between the updates.
\<close>

definition U1 :: "unit InboundEvent" where
  "U1 = \<lparr> ev_type = DDATA, ev_topic = ''spBv1.0/g/DDATA/n/A'', ev_payload = (),
          ev_receivedAt = 1 \<rparr>"

definition D1 :: "unit InboundEvent" where
  "D1 = \<lparr> ev_type = DBIRTH, ev_topic = ''spBv1.0/g/STATE/h/DBIRTH/n/A'', ev_payload = (),
          ev_receivedAt = 2 \<rparr>"

definition U2 :: "unit InboundEvent" where
  "U2 = \<lparr> ev_type = DDATA, ev_topic = ''spBv1.0/g/DDATA/n/A'', ev_payload = (),
          ev_receivedAt = 3 \<rparr>"

section \<open>Ingestion entry point\<close>

text \<open>
  The \<^verbatim>\<open>message\<close> listener of \<^verbatim>\<open>main\<close> in \<^verbatim>\<open>index.ts\<close>. \<open>messageEvent\<close> is the
  event the listener passes to \<^verbatim>\<open>enqueueEvent\<close>, if any; \<open>onMessage\<close> is the listener.
  \<open>systemTopic\<close> is \<^verbatim>\<open>config.sparkplug.systemTopic\<close> and \<open>now\<close> is \<^verbatim>\<open>Date.now()\<close>.
\<close>

definition messageEvent :: "string \<Rightarrow> string \<Rightarrow> 'p \<Rightarrow> nat \<Rightarrow> 'p InboundEvent option" where
  "messageEvent systemTopic topic payload now =
     (if startsWith topic systemTopic then
        (let t = parseCertificateTopic topic in
         if length (otherParts t) = 0 \<and> messageType t = Some ''DBIRTH''
         then Some \<lparr> ev_type = DBIRTH, ev_topic = topic, ev_payload = payload,
                     ev_receivedAt = now \<rparr>
         else None)
      else if startsWith topic ''spBv1.0/'' then
        (let t = parseTopic topic in
         if messageType t = Some ''DDATA''
         then Some \<lparr> ev_type = DDATA, ev_topic = topic, ev_payload = payload,
                     ev_receivedAt = now \<rparr>
         else None)
      else None)"

definition onMessage ::
  "string \<Rightarrow> string \<Rightarrow> 'p \<Rightarrow> nat \<Rightarrow> 'p scheduler \<Rightarrow> 'p scheduler" where
  "onMessage systemTopic topic payload now s =
     (case messageEvent systemTopic topic payload now of
        Some e \<Rightarrow> enqueueEvent e s
      | None \<Rightarrow> s)"

text \<open>
  The listener has no access to the storage: it acts on the queues only, and stored data
  changes later, when the transaction of a drained batch commits. \<open>ingestMessage\<close> is
  the listener on the pair of the scheduler and the stored data.
\<close>

definition ingestMessage ::
  "string \<Rightarrow> string \<Rightarrow> 'p \<Rightarrow> nat \<Rightarrow> 'p scheduler \<times> 'db \<Rightarrow> 'p scheduler \<times> 'db" where
  "ingestMessage systemTopic topic payload now w =
     (onMessage systemTopic topic payload now (fst w), snd w)"

text \<open>
  The system topic as the configuration documents it, \<^verbatim>\<open>spBv1.0/{groupId}/STATE\<close>:
  three segments, the first \<open>spBv1.0\<close> and the last \<open>STATE\<close>.
\<close>

definition documentedSystemTopic :: "string \<Rightarrow> bool" where
  "documentedSystemTopic systemTopic =
     (case js_split CHR ''/'' systemTopic of
        [ns, g, st] \<Rightarrow> ns = ''spBv1.0'' \<and> st = ''STATE''
      | _ \<Rightarrow> False)"

text \<open>
  The message types that are neither \<open>DBIRTH\<close> nor \<open>DDATA\<close>, and the type of a message as
  the listener reads it: behind the system-topic prefix after stripping two segments,
  otherwise from the topic as it is.
\<close>

definition otherMessageTypes :: "string list" where
  "otherMessageTypes = [''NBIRTH'', ''NDEATH'', ''DDEATH'', ''NDATA'', ''NCMD'', ''DCMD'', ''STATE'']"

definition handledType :: "string \<Rightarrow> string \<Rightarrow> string option" where
  "handledType systemTopic topic =
     (if startsWith topic systemTopic then messageType (parseCertificateTopic topic)
      else messageType (parseTopic topic))"

section \<open>JavaScript numbers and 64-bit integers\<close>

text \<open>
  A \<^verbatim>\<open>Long\<close> (package \<^verbatim>\<open>long\<close>) is a pair of 32-bit words and a signedness flag.
  \<^verbatim>\<open>toInt()\<close> is \<^verbatim>\<open>this.unsigned ? this.low >>> 0 : this.low\<close>.
\<close>

record Long =
  low :: "32 word"
  high :: "32 word"
  unsigned :: bool

definition Long_toInt :: "Long \<Rightarrow> int" where
  "Long_toInt l = (if unsigned l then uint (low l) else sint (low l))"

text \<open>The decimal numeral of an integer, as \<^verbatim>\<open>toString()\<close> renders a 32-bit integer.\<close>

fun decimal :: "nat \<Rightarrow> string" where
  "decimal n =
     (if n < 10 then [''0123456789'' ! n]
      else decimal (n div 10) @ [''0123456789'' ! (n mod 10)])"

declare decimal.simps [simp del]

definition int_toString :: "int \<Rightarrow> string" where
  "int_toString i = (if i < 0 then CHR ''-'' # decimal (nat (- i)) else decimal (nat i))"

text \<open>
  JavaScript numbers are IEEE doubles. The model does not fix their representation: the
  type \<open>'n\<close> of numbers is a parameter, and the operations of the language and of
  \<^verbatim>\<open>long\<close> that the code applies to numbers are passed as a record:
  \<^verbatim>\<open>Long.prototype.toNumber\<close>, \<^verbatim>\<open>String(n)\<close>, the truthiness of a number,
  \<^verbatim>\<open>Number(s)\<close> and \<^verbatim>\<open>Number.isNaN\<close>.
\<close>

record 'n number_ops =
  long_toNumber :: "Long \<Rightarrow> 'n"
  number_toString :: "'n \<Rightarrow> string"
  number_truthy :: "'n \<Rightarrow> bool"
  string_toNumber :: "string \<Rightarrow> 'n"
  number_isNaN :: "'n \<Rightarrow> bool"

text \<open>
  An instance for concrete runs: the integers, that is the integer-valued numbers.
  \<open>digitsValue\<close> reads a string of decimal digits; on the integers \<^verbatim>\<open>Number(s)\<close> is
  given for optionally signed digit strings only (any other string reads as 0 in this
  instance), and no integer is \<^verbatim>\<open>NaN\<close>.
\<close>

definition digitsValue :: "string \<Rightarrow> nat" where
  "digitsValue s = foldl (\<lambda>a c. 10 * a + (of_char c - 48)) 0 s"

definition int_ofString :: "string \<Rightarrow> int" where
  "int_ofString s =
     (case s of
        [] \<Rightarrow> 0
      | c # r \<Rightarrow> if c = CHR ''-'' then - int (digitsValue r)
                 else if c = CHR ''+'' then int (digitsValue r)
                 else int (digitsValue s))"

definition intNumbers :: "int number_ops" where
  "intNumbers =
     \<lparr> long_toNumber =
         (\<lambda>l. if unsigned l then uint (high l) * 4294967296 + uint (low l)
               else sint (high l) * 4294967296 + uint (low l)),
       number_toString = int_toString,
       number_truthy = (\<lambda>n. n \<noteq> 0),
       string_toNumber = int_ofString,
       number_isNaN = (\<lambda>n. False) \<rparr>"

section \<open>Metrics and payloads\<close>

text \<open>
  \<^verbatim>\<open>UMetric\<close>, \<^verbatim>\<open>UTemplate\<close> and \<^verbatim>\<open>UPayload\<close> of the payload library, as far as
  the code reads them. An optional field is an \<open>option\<close>. A metric value is a number, a
  \<^verbatim>\<open>Long\<close>, a boolean, a string, a template, some other object (a data set, a byte
  array), \<^verbatim>\<open>null\<close> or \<^verbatim>\<open>undefined\<close>. The code calls \<^verbatim>\<open>startsWith\<close> on
  \<^verbatim>\<open>templateRef\<close> and \<^verbatim>\<open>find\<close> on the template's \<^verbatim>\<open>metrics\<close> without a test,
  so in a template these two are a string and an array.
\<close>

datatype 'n LongOrNumber = IsLong Long | IsNumber 'n

datatype 'n UMetric =
  UMetric (m_name: "string option") (m_alias: "'n LongOrNumber option") (m_type: string)
    (m_value: "'n UValue") (m_timestamp: "'n LongOrNumber option")
and 'n UValue =
    VNumber 'n | VLong Long | VBoolean bool | VString string
  | VTemplate "'n UTemplate" | VObject | VNull | VUndefined
and 'n UTemplate =
  UTemplate (t_isDefinition: "bool option") (t_templateRef: string)
    (t_metrics: "'n UMetric list")

record ('n, 'b) UPayload =
  p_timestamp :: "'n LongOrNumber option"
  p_metrics :: "'n UMetric list option"
  p_seq :: "'n LongOrNumber option"
  p_uuid :: "string option"
  p_body :: "'b option"

text \<open>Exceptions: a \<^verbatim>\<open>TypeError\<close> raised by the language, or \<^verbatim>\<open>new Error(msg)\<close>.\<close>

datatype js_error = TypeError | Error string

text \<open>
  \<^verbatim>\<open>makeNumber\<close> of \<^verbatim>\<open>common/metrics.ts\<close>: a number is returned, an object with
  \<^verbatim>\<open>low\<close> and \<^verbatim>\<open>high\<close> is converted, any other object raises \<^verbatim>\<open>Error\<close>, and the
  \<^verbatim>\<open>in\<close> operator raises \<^verbatim>\<open>TypeError\<close> on a primitive, \<^verbatim>\<open>null\<close> or
  \<^verbatim>\<open>undefined\<close>.
\<close>

definition makeNumber :: "'n number_ops \<Rightarrow> 'n UValue \<Rightarrow> js_error + 'n" where
  "makeNumber J v =
     (case v of
        VNumber n \<Rightarrow> Inr n
      | VLong l \<Rightarrow> Inr (long_toNumber J l)
      | VTemplate t \<Rightarrow> Inl (Error ''Unsupported value'')
      | VObject \<Rightarrow> Inl (Error ''Unsupported value'')
      | _ \<Rightarrow> Inl TypeError)"

definition numericTypes :: "string list" where
  "numericTypes =
     [''Int8'', ''Int16'', ''Int32'', ''Int64'', ''UInt8'', ''UInt16'', ''UInt32'',
      ''UInt64'', ''Float'', ''Double'']"

text \<open>
  \<^verbatim>\<open>getMetricValue\<close> of \<^verbatim>\<open>common/metrics.ts\<close>. The result \<open>Inr VNull\<close> is the
  \<^verbatim>\<open>return null\<close> of the source. With type \<^verbatim>\<open>Template\<close> and a value that is not a
  template object, reading \<^verbatim>\<open>templateRef.startsWith\<close> (or a property of
  \<^verbatim>\<open>null\<close>) raises \<^verbatim>\<open>TypeError\<close>. The warnings logged are not modelled.
\<close>

function getMetricValue :: "'n number_ops \<Rightarrow> 'n UMetric \<Rightarrow> js_error + 'n UValue" where
  "getMetricValue J metric =
     (if m_type metric \<in> set numericTypes then
        (case makeNumber J (m_value metric) of Inl e \<Rightarrow> Inl e | Inr n \<Rightarrow> Inr (VNumber n))
      else if m_type metric = ''Boolean'' \<or> m_type metric = ''String'' then Inr (m_value metric)
      else if m_type metric = ''Template'' then
        (case m_value metric of
           VTemplate template \<Rightarrow>
             if t_isDefinition template = Some True then Inr VNull
             else if startsWith (t_templateRef template) ''baja:Status'' then
               (case find (\<lambda>m. m_name m = Some ''value'') (t_metrics template) of
                  None \<Rightarrow> Inr VNull
                | Some valueMetric \<Rightarrow> getMetricValue J valueMetric)
             else Inr VNull
         | _ \<Rightarrow> Inl TypeError)
      else Inr VNull)"
  by pat_completeness auto

lemma find_size:
  "find P ms = Some (c :: 'n UMetric) \<Longrightarrow> size c \<le> size_list size ms"
  by (induction ms) (auto split: if_splits)

termination getMetricValue
proof (relation "measure (\<lambda>p. size (snd p))")
  show "wf (measure (\<lambda>p :: 'n number_ops \<times> 'n UMetric. size (snd p)))" by simp
next
  fix J :: "'n number_ops" and metric :: "'n UMetric" and template c
  assume v: "m_value metric = VTemplate template"
    and f: "find (\<lambda>m. m_name m = Some ''value'') (t_metrics template) = Some c"
  have "size c \<le> size_list size (t_metrics template)" by (rule find_size [OF f])
  also have "\<dots> < size template" by (cases template) simp
  also have "\<dots> < size (m_value metric)" by (simp add: v)
  also have "\<dots> < size metric" by (cases metric) simp
  finally show "((J, c), (J, metric)) \<in> measure (\<lambda>p. size (snd p))" by simp
qed

declare getMetricValue.simps [simp del]

text \<open>
  \<^verbatim>\<open>ts\<close>: \<^verbatim>\<open>new Date(typeof timestamp === "number" ? timestamp : timestamp.toNumber())\<close>.
  A date is modelled by its number of milliseconds; a missing timestamp raises
  \<^verbatim>\<open>TypeError\<close>.
\<close>

definition ts :: "'n number_ops \<Rightarrow> 'n LongOrNumber option \<Rightarrow> js_error + 'n" where
  "ts J timestamp =
     (case timestamp of
        Some (IsNumber n) \<Rightarrow> Inr n
      | Some (IsLong l) \<Rightarrow> Inr (long_toNumber J l)
      | None \<Rightarrow> Inl TypeError)"

text \<open>
  \<^verbatim>\<open>resolveMetricName\<close>: the alias, when it is truthy, as a decimal string; the name
  otherwise. A \<^verbatim>\<open>Long\<close> is an object and always truthy.
\<close>

definition resolveMetricName :: "'n number_ops \<Rightarrow> 'n UMetric \<Rightarrow> string option" where
  "resolveMetricName J metric =
     (case m_alias metric of
        Some (IsLong l) \<Rightarrow> Some (int_toString (Long_toInt l))
      | Some (IsNumber n) \<Rightarrow>
          if number_truthy J n then Some (number_toString J n) else m_name metric
      | None \<Rightarrow> m_name metric)"

text \<open>\<^verbatim>\<open>metricId\<close> of \<^verbatim>\<open>types.ts\<close>.\<close>

definition metricId :: "string \<Rightarrow> string \<Rightarrow> string" where
  "metricId deviceName metricName = deviceName @ ''/'' @ metricName"

section \<open>Staging a batch\<close>

text \<open>
  The three arrays \<^verbatim>\<open>drainQueues\<close> fills for a batch before it opens the transaction:
  \<^verbatim>\<open>newDevices\<close>, \<^verbatim>\<open>newMetrics\<close> and \<^verbatim>\<open>metricValues\<close>.
\<close>

record 'n NewDevice =
  nd_deviceName :: string
  nd_topic :: string
  nd_birthTimestamp :: 'n

record 'n MetricValueRow =
  mv_metricId :: string
  mv_ts :: 'n
  mv_value :: "'n UValue"
  mv_fromBirth :: bool

record 'n staged =
  newDevices :: "'n NewDevice list"
  newMetrics :: "(string \<times> string) list"
  metricValues :: "'n MetricValueRow list"

definition emptyStaged :: "'n staged" where
  "emptyStaged = \<lparr> newDevices = [], newMetrics = [], metricValues = [] \<rparr>"

text \<open>
  The loop over the metrics of a \<^verbatim>\<open>DBIRTH\<close> payload. \<^verbatim>\<open>continue\<close> is the recursive
  call with the staged arrays unchanged; an exception of \<^verbatim>\<open>getMetricValue\<close> or
  \<^verbatim>\<open>ts\<close> ends the loop (and the whole drain).
\<close>

fun stageBirthMetrics ::
  "'n number_ops \<Rightarrow> string \<Rightarrow> 'n UMetric list \<Rightarrow> 'n staged \<Rightarrow> js_error + 'n staged" where
  "stageBirthMetrics J dev [] st = Inr st"
| "stageBirthMetrics J dev (m # ms) st =
     (case resolveMetricName J m of
        None \<Rightarrow> stageBirthMetrics J dev ms st
      | Some name \<Rightarrow>
          if name = [] then stageBirthMetrics J dev ms st
          else (case getMetricValue J m of
                  Inl e \<Rightarrow> Inl e
                | Inr val \<Rightarrow>
                    if val = VNull \<or> val = VUndefined then stageBirthMetrics J dev ms st
                    else (case ts J (m_timestamp m) of
                            Inl e \<Rightarrow> Inl e
                          | Inr tstamp \<Rightarrow>
                              stageBirthMetrics J dev ms
                                (st\<lparr> newMetrics := newMetrics st @ [(dev, name)],
                                     metricValues := metricValues st @
                                       [\<lparr> mv_metricId = metricId dev name, mv_ts = tstamp,
                                          mv_value = val, mv_fromBirth = True \<rparr>] \<rparr>))))"

text \<open>The loop over the metrics of a \<^verbatim>\<open>DDATA\<close> payload: names are taken literally.\<close>

fun stageDataMetrics ::
  "'n number_ops \<Rightarrow> string \<Rightarrow> 'n UMetric list \<Rightarrow> 'n staged \<Rightarrow> js_error + 'n staged" where
  "stageDataMetrics J dev [] st = Inr st"
| "stageDataMetrics J dev (m # ms) st =
     (case m_name m of
        None \<Rightarrow> stageDataMetrics J dev ms st
      | Some name \<Rightarrow>
          if name = [] then stageDataMetrics J dev ms st
          else (case getMetricValue J m of
                  Inl e \<Rightarrow> Inl e
                | Inr val \<Rightarrow>
                    if val = VNull \<or> val = VUndefined then stageDataMetrics J dev ms st
                    else (case ts J (m_timestamp m) of
                            Inl e \<Rightarrow> Inl e
                          | Inr tstamp \<Rightarrow>
                              stageDataMetrics J dev ms
                                (st\<lparr> metricValues := metricValues st @
                                       [\<lparr> mv_metricId = metricId dev name, mv_ts = tstamp,
                                          mv_value = val, mv_fromBirth = False \<rparr>] \<rparr>))))"

text \<open>\<^verbatim>\<open>evt.payload.metrics || []\<close>.\<close>

definition payloadMetrics :: "('n, 'b) UPayload \<Rightarrow> 'n UMetric list" where
  "payloadMetrics payload = (case p_metrics payload of None \<Rightarrow> [] | Some ms \<Rightarrow> ms)"

text \<open>
  The body of \<^verbatim>\<open>for (const evt of batch)\<close>. An event whose topic gives no device id
  (\<^verbatim>\<open>null\<close> or the empty string) is skipped.
\<close>

definition stageEvent ::
  "'n number_ops \<Rightarrow> ('n, 'b) UPayload InboundEvent \<Rightarrow> 'n staged \<Rightarrow> js_error + 'n staged" where
  "stageEvent J evt st =
     (if ev_type evt = DBIRTH then
        (case deviceId (parseCertificateTopic (ev_topic evt)) of
           None \<Rightarrow> Inr st
         | Some dev \<Rightarrow>
             if dev = [] then Inr st
             else (case ts J (p_timestamp (ev_payload evt)) of
                     Inl e \<Rightarrow> Inl e
                   | Inr birth \<Rightarrow>
                       stageBirthMetrics J dev (payloadMetrics (ev_payload evt))
                         (st\<lparr> newDevices := newDevices st @
                                [\<lparr> nd_deviceName = dev, nd_topic = ev_topic evt,
                                   nd_birthTimestamp = birth \<rparr>] \<rparr>)))
      else
        (case deviceId (parseTopic (ev_topic evt)) of
           None \<Rightarrow> Inr st
         | Some dev \<Rightarrow>
             if dev = [] then Inr st
             else stageDataMetrics J dev (payloadMetrics (ev_payload evt)) st))"

fun stageBatch ::
  "'n number_ops \<Rightarrow> ('n, 'b) UPayload InboundEvent list \<Rightarrow> 'n staged \<Rightarrow> js_error + 'n staged"
  where
  "stageBatch J [] st = Inr st"
| "stageBatch J (evt # batch) st =
     (case stageEvent J evt st of Inl e \<Rightarrow> Inl e | Inr st' \<Rightarrow> stageBatch J batch st')"

text \<open>
  A metric is retained by the \<^verbatim>\<open>DBIRTH\<close> loop when its resolved name is not empty
  and its value is neither \<^verbatim>\<open>null\<close> nor \<^verbatim>\<open>undefined\<close>; \<open>rowName\<close> is the name it
  is staged under.
\<close>

definition retained :: "'n number_ops \<Rightarrow> 'n UMetric \<Rightarrow> bool" where
  "retained J m =
     (case resolveMetricName J m of
        None \<Rightarrow> False
      | Some name \<Rightarrow>
          name \<noteq> [] \<and>
          (case getMetricValue J m of Inl e \<Rightarrow> False | Inr val \<Rightarrow> val \<noteq> VNull \<and> val \<noteq> VUndefined))"

definition rowName :: "'n number_ops \<Rightarrow> 'n UMetric \<Rightarrow> string" where
  "rowName J m = (case resolveMetricName J m of None \<Rightarrow> [] | Some name \<Rightarrow> name)"

section \<open>Concrete metrics\<close>

text \<open>
  A status template instance with a child \<open>value\<close> of type \<open>Int32\<close> and value 42, and a
  \<^verbatim>\<open>DBIRTH\<close> event of device \<open>A\<close> with five metrics: a number, a metric of the
  unsupported type \<open>DateTime\<close>, a template definition, an aliased boolean without a
  name, and a number with an empty name.
\<close>

definition statusMetric :: "int UMetric" where
  "statusMetric =
     UMetric (Some ''status'') None ''Template''
       (VTemplate (UTemplate (Some False) ''baja:StatusNumeric''
          [UMetric (Some ''status'') None ''String'' (VString ''ok'') None,
           UMetric (Some ''value'') None ''Int32'' (VNumber 42) None])) None"

definition birthMetrics :: "int UMetric list" where
  "birthMetrics =
     [UMetric (Some ''temp'') None ''Int32'' (VNumber 21) (Some (IsNumber 1000)),
      UMetric (Some ''when'') None ''DateTime'' (VNumber 5) (Some (IsNumber 1000)),
      UMetric (Some ''shape'') None ''Template''
        (VTemplate (UTemplate (Some True) ''baja:StatusNumeric'' [])) (Some (IsNumber 1000)),
      UMetric None (Some (IsLong \<lparr> low = 7, high = 0, unsigned = True \<rparr>)) ''Boolean''
        (VBoolean True) (Some (IsNumber 1001)),
      UMetric (Some []) None ''Int32'' (VNumber 3) (Some (IsNumber 1002))]"

definition birthEvent :: "(int, unit) UPayload InboundEvent" where
  "birthEvent =
     \<lparr> ev_type = DBIRTH, ev_topic = ''spBv1.0/g/STATE/h/DBIRTH/n/A'',
       ev_payload = \<lparr> p_timestamp = Some (IsNumber 999), p_metrics = Some birthMetrics,
                      p_seq = None, p_uuid = None, p_body = None \<rparr>,
       ev_receivedAt = 5 \<rparr>"

section \<open>Protocol client: payload codec and message handler\<close>

text \<open>
  \<^verbatim>\<open>toUpperCase\<close> on the letters \<open>a\<close> to \<open>z\<close>; the algorithm names the code compares
  are written in these letters.
\<close>

definition upperChar :: "char \<Rightarrow> char" where
  "upperChar c =
     (case map_of (zip ''abcdefghijklmnopqrstuvwxyz'' ''ABCDEFGHIJKLMNOPQRSTUVWXYZ'') c of
        Some u \<Rightarrow> u
      | None \<Rightarrow> c)"

definition toUpperCase :: "string \<Rightarrow> string" where
  "toUpperCase s = map upperChar s"

text \<open>
  The payload library and \<^verbatim>\<open>pako\<close> are not part of the repository. Their functions
  are passed as a record: \<^verbatim>\<open>sparkplugbpayload.decodePayload\<close> (which may throw) and
  \<^verbatim>\<open>encodePayload\<close>, \<^verbatim>\<open>pako.deflate\<close>, \<^verbatim>\<open>pako.inflate\<close>, \<^verbatim>\<open>pako.gzip\<close>,
  \<^verbatim>\<open>pako.ungzip\<close> (the two decompressors may throw) and the empty byte array. The
  type \<open>'b\<close> of byte arrays is a parameter.
\<close>

record ('n, 'b) codec =
  sp_decode :: "'b \<Rightarrow> js_error + ('n, 'b) UPayload"
  sp_encode :: "('n, 'b) UPayload \<Rightarrow> 'b"
  pako_deflate :: "'b \<Rightarrow> 'b"
  pako_inflate :: "'b \<Rightarrow> js_error + 'b"
  pako_gzip :: "'b \<Rightarrow> 'b"
  pako_ungzip :: "'b \<Rightarrow> js_error + 'b"
  emptyBytes :: 'b


definition compressed :: string where
  "compressed = ''SPBV1.0_COMPRESSED''"

text \<open>\<^verbatim>\<open>decodePayload\<close>: any exception of the library becomes one \<^verbatim>\<open>Error\<close>.\<close>

definition decodePayload :: "('n, 'b) codec \<Rightarrow> 'b \<Rightarrow> js_error + ('n, 'b) UPayload" where
  "decodePayload C payload =
     (case sp_decode C payload of
        Inl e \<Rightarrow> Inl (Error ''Failed to decode Sparkplug payload'')
      | Inr p \<Rightarrow> Inr p)"


text \<open>\<^verbatim>\<open>decompressPayload\<close> and \<^verbatim>\<open>maybeDecompressPayload\<close>.\<close>

definition decompressPayload :: "('n, 'b) codec \<Rightarrow> ('n, 'b) UPayload \<Rightarrow> js_error + 'b" where
  "decompressPayload C payload =
     (let metrics = payloadMetrics payload;
          body = (case p_body payload of None \<Rightarrow> emptyBytes C | Some b \<Rightarrow> b);
          algorithm =
            (case find (\<lambda>m. m_name m = Some ''algorithm'') metrics of
               Some algorithmMetric \<Rightarrow>
                 (case m_value algorithmMetric of VString a \<Rightarrow> Some a | _ \<Rightarrow> None)
             | None \<Rightarrow> None)
      in case algorithm of
           None \<Rightarrow> pako_inflate C body
         | Some a \<Rightarrow>
             if toUpperCase a = ''DEFLATE'' then pako_inflate C body
             else if toUpperCase a = ''GZIP'' then pako_ungzip C body
             else Inl (Error (''Unknown or unsupported algorithm '' @ a)))"

definition maybeDecompressPayload ::
  "('n, 'b) codec \<Rightarrow> ('n, 'b) UPayload \<Rightarrow> js_error + ('n, 'b) UPayload" where
  "maybeDecompressPayload C payload =
     (if p_uuid payload = Some compressed then
        (case decompressPayload C payload of
           Inl e \<Rightarrow> Inl e
         | Inr bytes \<Rightarrow> decodePayload C bytes)
      else Inr payload)"

text \<open>
  The \<^verbatim>\<open>message\<close> listener installed by \<^verbatim>\<open>init\<close>. Its outcome is one of: the
  message is dropped (the \<^verbatim>\<open>catch\<close> around the first \<^verbatim>\<open>decodePayload\<close> logs at debug
  level and returns); a \<^verbatim>\<open>message\<close> event is emitted with the topic, the payload and
  the parsed topic; or an exception leaves the listener. The call of
  \<^verbatim>\<open>maybeDecompressPayload\<close> stands after the \<^verbatim>\<open>try\<close> block, outside it.
\<close>

datatype ('n, 'b) handled =
    Dropped
  | Emitted string "('n, 'b) UPayload" MessageContext
  | Uncaught js_error

definition handleMessage :: "('n, 'b) codec \<Rightarrow> string \<Rightarrow> 'b \<Rightarrow> ('n, 'b) handled" where
  "handleMessage C topic message =
     (case decodePayload C message of
        Inl e \<Rightarrow> Dropped
      | Inr decoded \<Rightarrow>
          (case maybeDecompressPayload C decoded of
             Inl e \<Rightarrow> Uncaught e
           | Inr payload \<Rightarrow> Emitted topic payload (parseTopic topic)))"









section \<open>Stored values\<close>

text \<open>
  \<^verbatim>\<open>toStoredValue\<close> and \<^verbatim>\<open>parseStoredValue\<close> of the repository layer. A value is
  \<^verbatim>\<open>string | number | boolean | null\<close>; on this type the \<^verbatim>\<open>JSON.stringify\<close> branch
  of \<^verbatim>\<open>toStoredValue\<close> is not reached.
\<close>

datatype 'n FlexValue = FString string | FNumber 'n | FBoolean bool | FNull

text \<open>
  \<^verbatim>\<open>trim()\<close>, for strings of ASCII characters: tab, line feed, vertical tab, form
  feed, carriage return and space are removed at both ends.
\<close>

definition isWhitespace :: "char \<Rightarrow> bool" where
  "isWhitespace c = (c \<in> set [CHR 0x09, CHR 0x0A, CHR 0x0B, CHR 0x0C, CHR 0x0D, CHR '' ''])"

definition js_trim :: "string \<Rightarrow> string" where
  "js_trim s = rev (dropWhile isWhitespace (rev (dropWhile isWhitespace s)))"

text \<open>
  The test \<^verbatim>\<open>/^[+-]?\d+(?:\.\d+)?$/\<close>: an optional sign, one or more digits and,
  optionally, a dot followed by one or more digits, up to the end of the string.
\<close>

definition isDigit :: "char \<Rightarrow> bool" where
  "isDigit c = (c \<in> set ''0123456789'')"

definition numericPattern :: "string \<Rightarrow> bool" where
  "numericPattern s =
     (let body = (case s of [] \<Rightarrow> [] | c # r \<Rightarrow> if c = CHR ''+'' \<or> c = CHR ''-'' then r else s);
          intPart = takeWhile isDigit body;
          rest = dropWhile isDigit body
      in intPart \<noteq> [] \<and>
         (case rest of
            [] \<Rightarrow> True
          | d # frac \<Rightarrow> d = CHR ''.'' \<and> frac \<noteq> [] \<and> list_all isDigit frac))"

definition toStoredValue :: "'n number_ops \<Rightarrow> 'n FlexValue \<Rightarrow> string option" where
  "toStoredValue J v =
     (case v of
        FNull \<Rightarrow> None
      | FString s \<Rightarrow> Some s
      | FNumber n \<Rightarrow> Some (number_toString J n)
      | FBoolean b \<Rightarrow> Some (if b then ''true'' else ''false''))"

definition parseStoredValue :: "'n number_ops \<Rightarrow> 'n FlexValue \<Rightarrow> 'n FlexValue" where
  "parseStoredValue J v =
     (case v of
        FString str \<Rightarrow>
          (let s = js_trim str in
           if s = ''true'' then FBoolean True
           else if s = ''false'' then FBoolean False
           else if numericPattern s \<and> \<not> number_isNaN J (string_toNumber J s)
             then FNumber (string_toNumber J s)
           else FString s)
      | _ \<Rightarrow> v)"

text \<open>
  The column \<^verbatim>\<open>value\<close> is a \<^verbatim>\<open>varchar\<close>: it is read as a string or
  \<^verbatim>\<open>null\<close>. \<open>storedRoundTrip\<close> writes a value with \<^verbatim>\<open>toStoredValue\<close> and reads
  the column with \<^verbatim>\<open>parseStoredValue\<close>, as the repository's \<^verbatim>\<open>latest\<close> does.
\<close>

definition columnValue :: "string option \<Rightarrow> 'n FlexValue" where
  "columnValue c = (case c of None \<Rightarrow> FNull | Some s \<Rightarrow> FString s)"

definition storedRoundTrip :: "'n number_ops \<Rightarrow> 'n FlexValue \<Rightarrow> 'n FlexValue" where
  "storedRoundTrip J v = parseStoredValue J (columnValue (toStoredValue J v))"

text \<open>The characters a string that passes the numeric test is made of.\<close>

definition numericChars :: "char set" where
  "numericChars = set ''+-.0123456789''"

section \<open>Storage\<close>

text \<open>
  The three tables of \<^verbatim>\<open>db/schema.ts\<close>, as lists of rows. A timestamp column holds a
  number of microseconds. The column \<^verbatim>\<open>ingested_at\<close> is not read by the code
  modelled here and is left out.
\<close>

record DeviceRow =
  d_device_name :: string
  d_topic :: string
  d_birth_timestamp :: "int option"

record DeviceMetricRow =
  dm_id :: string
  dm_device_name :: string
  dm_metric_name :: string

record ValueRow =
  v_metric_id :: string
  v_ts :: int
  v_value :: "string option"
  v_from_birth :: bool

record database =
  devices :: "DeviceRow list"
  device_metrics :: "DeviceMetricRow list"
  device_metric_values :: "ValueRow list"

section \<open>Status classifier\<close>

text \<open>
  The two status queries of \<^verbatim>\<open>registerApi\<close>. Times are in microseconds; \<open>day\<close> is
  \<^verbatim>\<open>interval '1 day'\<close> and \<open>now\<close> is \<^verbatim>\<open>current_timestamp\<close>. \<open>sql_max\<close> is the
  aggregate \<^verbatim>\<open>max(v.ts)\<close> over the joined rows that have a value (\<^verbatim>\<open>NULL\<close> when
  there is none).
\<close>

datatype color = grey | green | yellow | red

definition day :: int where
  "day = 86400000000"

definition hour :: int where "hour = 3600000000"

fun sql_max :: "int list \<Rightarrow> int option" where
  "sql_max [] = None"
| "sql_max (x # xs) = (case sql_max xs of None \<Rightarrow> Some x | Some m \<Rightarrow> Some (max x m))"

text \<open>
  The \<^verbatim>\<open>case\<close> expression. The column \<^verbatim>\<open>ts\<close> is a \<^verbatim>\<open>TIMESTAMP\<close> without a zone,
  which the repository writes as the UTC wall-clock time (\<^verbatim>\<open>toISOString()\<close> with the
  \<^verbatim>\<open>Z\<close> dropped). \<^verbatim>\<open>current_timestamp\<close> is a timestamp with time zone, and to
  compare the two the engine reads the zone-less value as a local time of the session's
  time zone. \<open>zone\<close> is the offset of that time zone east of UTC: the stored value \<open>t\<close>
  is compared as the instant \<open>t - zone\<close>. In a session in UTC the offset is 0.
\<close>

definition statusCase :: "int \<Rightarrow> int option \<Rightarrow> int \<Rightarrow> color" where
  "statusCase zone last_ts now =
     (case last_ts of
        None \<Rightarrow> grey
      | Some t \<Rightarrow>
          if t - zone \<ge> now - day then green
          else if t - zone \<ge> now - 7 * day then yellow
          else red)"

text \<open>
  The timestamps the two left joins reach from an input name: the values of all metrics
  of a device, and the values of the metric of the given device with the given name.
\<close>

definition deviceValueTimes :: "database \<Rightarrow> string \<Rightarrow> int list" where
  "deviceValueTimes db name =
     concat (map (\<lambda>m. map v_ts (filter (\<lambda>v. v_metric_id v = dm_id m) (device_metric_values db)))
               (filter (\<lambda>m. dm_device_name m = name) (device_metrics db)))"

definition metricValueTimes :: "database \<Rightarrow> string \<Rightarrow> string \<Rightarrow> int list" where
  "metricValueTimes db device name =
     concat (map (\<lambda>m. map v_ts (filter (\<lambda>v. v_metric_id v = dm_id m) (device_metric_values db)))
               (filter (\<lambda>m. dm_device_name m = device \<and> dm_metric_name m = name) (device_metrics db)))"

text \<open>
  The handlers split the query parameter at commas, trim the parts and drop the empty
  ones; an empty list is answered without a query. \<^verbatim>\<open>group by\<close> gives one row for
  each distinct name and the query fixes no order of the rows, so the answer is
  modelled as a map from the names asked for to their colours.
\<close>

definition requestList :: "string \<Rightarrow> string list" where
  "requestList query = filter (\<lambda>s. s \<noteq> []) (map js_trim (js_split CHR '','' query))"

definition devicesStatus :: "database \<Rightarrow> int \<Rightarrow> int \<Rightarrow> string \<Rightarrow> (string \<rightharpoonup> color)" where
  "devicesStatus db zone now query =
     (let list = requestList query in
      if list = [] then Map.empty
      else (\<lambda>name. if name \<in> set list
                    then Some (statusCase zone (sql_max (deviceValueTimes db name)) now)
                    else None))"

definition metricsStatus ::
  "database \<Rightarrow> int \<Rightarrow> int \<Rightarrow> string \<Rightarrow> string \<Rightarrow> (string \<rightharpoonup> color)" where
  "metricsStatus db zone now device query =
     (let list = requestList query in
      if list = [] then Map.empty
      else (\<lambda>name. if name \<in> set list
                    then Some (statusCase zone (sql_max (metricValueTimes db device name)) now)
                    else None))"

text \<open>A database with two devices for concrete runs; \<open>B\<close> has a metric but no value.\<close>

definition sampleDb :: database where
  "sampleDb =
     \<lparr> devices = [],
       device_metrics =
         [\<lparr> dm_id = ''A/temp'', dm_device_name = ''A'', dm_metric_name = ''temp'' \<rparr>,
          \<lparr> dm_id = ''A/rpm'', dm_device_name = ''A'', dm_metric_name = ''rpm'' \<rparr>,
          \<lparr> dm_id = ''B/temp'', dm_device_name = ''B'', dm_metric_name = ''temp'' \<rparr>],
       device_metric_values =
         [\<lparr> v_metric_id = ''A/temp'', v_ts = 1000 * day - 23 * hour, v_value = Some ''21'', v_from_birth = True \<rparr>,
          \<lparr> v_metric_id = ''A/rpm'', v_ts = 1000 * day - 25 * hour, v_value = Some ''900'', v_from_birth = False \<rparr>,
          \<lparr> v_metric_id = ''A/rpm'', v_ts = 1000 * day - 30 * day, v_value = Some ''901'', v_from_birth = False \<rparr>] \<rparr>"

section \<open>Batch committer\<close>

text \<open>
  The storage engine is not part of the repository. What its statements do to the data
  is passed as a record: the upsert of a device, the two bulk inserts and \<^verbatim>\<open>COMMIT\<close>,
  each of which may fail. The type \<open>'db\<close> of the stored data is a parameter.
\<close>

record ('n, 'db) engine =
  sql_upsertDevice :: "'n NewDevice \<Rightarrow> 'db \<Rightarrow> js_error + 'db"
  sql_insertMetrics :: "(string \<times> string \<times> string) list \<Rightarrow> 'db \<Rightarrow> js_error + 'db"
  sql_insertValues :: "'n MetricValueRow list \<Rightarrow> 'db \<Rightarrow> js_error + 'db"
  sql_commit :: "'db \<Rightarrow> js_error + 'db"

text \<open>
  Modelled from the spec: the transactional interface of the storage engine
  (\<^verbatim>\<open>beginTransaction\<close>, \<^verbatim>\<open>commit\<close>, \<^verbatim>\<open>rollback\<close>), which the code reaches
  through \<^verbatim>\<open>connRef.run\<close>. A connection holds the committed data and, while a
  transaction is open, the transaction's working copy. \<^verbatim>\<open>BEGIN TRANSACTION\<close> opens the
  working copy, a statement acts on it (on the committed data when no transaction is
  open), \<^verbatim>\<open>COMMIT\<close> makes it the committed data and \<^verbatim>\<open>ROLLBACK\<close> discards it. A
  statement that fails changes nothing.
\<close>

record 'db connection =
  committed :: 'db
  working :: "'db option"

definition runStatement ::
  "('db \<Rightarrow> js_error + 'db) \<Rightarrow> 'db connection \<Rightarrow> js_error + 'db connection" where
  "runStatement stmt conn =
     (case working conn of
        Some w \<Rightarrow> (case stmt w of Inl e \<Rightarrow> Inl e | Inr w' \<Rightarrow> Inr (conn\<lparr>working := Some w'\<rparr>))
      | None \<Rightarrow>
          (case stmt (committed conn) of Inl e \<Rightarrow> Inl e | Inr c \<Rightarrow> Inr (conn\<lparr>committed := c\<rparr>)))"

definition beginTransaction :: "'db connection \<Rightarrow> js_error + 'db connection" where
  "beginTransaction conn =
     (case working conn of
        None \<Rightarrow> Inr (conn\<lparr>working := Some (committed conn)\<rparr>)
      | Some w \<Rightarrow> Inl (Error ''cannot start a transaction within a transaction''))"

definition commitTransaction ::
  "('n, 'db) engine \<Rightarrow> 'db connection \<Rightarrow> js_error + 'db connection" where
  "commitTransaction E conn =
     (case working conn of
        None \<Rightarrow> Inl (Error ''cannot commit - no transaction is active'')
      | Some w \<Rightarrow>
          (case sql_commit E w of
             Inl e \<Rightarrow> Inl e
           | Inr c \<Rightarrow> Inr \<lparr> committed = c, working = None \<rparr>))"

definition rollbackTransaction :: "'db connection \<Rightarrow> js_error + 'db connection" where
  "rollbackTransaction conn =
     (case working conn of
        None \<Rightarrow> Inl (Error ''cannot rollback - no transaction is active'')
      | Some w \<Rightarrow> Inr (conn\<lparr>working := None\<rparr>))"

text \<open>
  The repository methods the committer calls. \<^verbatim>\<open>insertMany\<close> of the metric
  repository drops repeated ids from its argument and issues no statement for an empty
  list; \<^verbatim>\<open>insertMany\<close> of the value repository issues none for an empty list.
\<close>

definition DeviceRepository_upsert ::
  "('n, 'db) engine \<Rightarrow> 'n NewDevice \<Rightarrow> 'db connection \<Rightarrow> js_error + 'db connection" where
  "DeviceRepository_upsert E device conn = runStatement (sql_upsertDevice E device) conn"

fun metricRows :: "string list \<Rightarrow> (string \<times> string) list \<Rightarrow> (string \<times> string \<times> string) list"
  where
  "metricRows seen [] = []"
| "metricRows seen ((deviceName, metricName) # records) =
     (let i = metricId deviceName metricName in
      if i \<in> set seen then metricRows seen records
      else (i, deviceName, metricName) # metricRows (seen @ [i]) records)"

definition DeviceMetricRepository_insertMany ::
  "('n, 'db) engine \<Rightarrow> (string \<times> string) list \<Rightarrow> 'db connection
     \<Rightarrow> js_error + 'db connection" where
  "DeviceMetricRepository_insertMany E records conn =
     (if records = [] then Inr conn
      else (let rows = metricRows [] records in
            if rows = [] then Inr conn
            else runStatement (sql_insertMetrics E rows) conn))"

definition DeviceMetricValueRepository_insertMany ::
  "('n, 'db) engine \<Rightarrow> 'n MetricValueRow list \<Rightarrow> 'db connection
     \<Rightarrow> js_error + 'db connection" where
  "DeviceMetricValueRepository_insertMany E vals conn =
     (if vals = [] then Inr conn else runStatement (sql_insertValues E vals) conn)"

text \<open>
  The transaction of one batch in \<^verbatim>\<open>drainQueues\<close>. \<open>tryBlock\<close> is the \<^verbatim>\<open>try\<close> block:
  the upserts, the two bulk inserts and \<^verbatim>\<open>COMMIT\<close>; it returns the connection as the
  block left it and the exception, if any. \<open>commitStaged\<close> opens the transaction (outside
  the \<^verbatim>\<open>try\<close>), runs the block and, when it threw, issues \<^verbatim>\<open>ROLLBACK\<close>, ignoring a
  failure of the rollback; it returns the connection and the flag \<^verbatim>\<open>failed\<close>.
\<close>

fun upsertDevices ::
  "('n, 'db) engine \<Rightarrow> 'n NewDevice list \<Rightarrow> 'db connection
     \<Rightarrow> 'db connection \<times> js_error option" where
  "upsertDevices E [] conn = (conn, None)"
| "upsertDevices E (d # ds) conn =
     (case DeviceRepository_upsert E d conn of
        Inl e \<Rightarrow> (conn, Some e)
      | Inr conn' \<Rightarrow> upsertDevices E ds conn')"

definition tryBlock ::
  "('n, 'db) engine \<Rightarrow> 'n staged \<Rightarrow> 'db connection \<Rightarrow> 'db connection \<times> js_error option"
  where
  "tryBlock E st conn =
     (case upsertDevices E (newDevices st) conn of
        (c1, Some e) \<Rightarrow> (c1, Some e)
      | (c1, None) \<Rightarrow>
          (case DeviceMetricRepository_insertMany E (newMetrics st) c1 of
             Inl e \<Rightarrow> (c1, Some e)
           | Inr c2 \<Rightarrow>
               (case DeviceMetricValueRepository_insertMany E (metricValues st) c2 of
                  Inl e \<Rightarrow> (c2, Some e)
                | Inr c3 \<Rightarrow>
                    (case commitTransaction E c3 of
                       Inl e \<Rightarrow> (c3, Some e)
                     | Inr c4 \<Rightarrow> (c4, None)))))"

definition commitStaged ::
  "('n, 'db) engine \<Rightarrow> 'n staged \<Rightarrow> 'db connection \<Rightarrow> js_error + ('db connection \<times> bool)"
  where
  "commitStaged E st conn =
     (case beginTransaction conn of
        Inl e \<Rightarrow> Inl e
      | Inr c0 \<Rightarrow>
          (case tryBlock E st c0 of
             (c, None) \<Rightarrow> Inr (c, False)
           | (c, Some e) \<Rightarrow>
               Inr (case rollbackTransaction c of Inl e' \<Rightarrow> (c, True) | Inr c' \<Rightarrow> (c', True))))"

text \<open>
  What a batch does to the data when every step succeeds, written without a connection:
  the device upserts in order, the insert of the metric rows (none for an empty list),
  the insert of the value rows (none for an empty list) and \<^verbatim>\<open>COMMIT\<close>, each on the
  result of the one before; the first failure is the result.
\<close>

fun upsertEffect :: "('n, 'db) engine \<Rightarrow> 'n NewDevice list \<Rightarrow> 'db \<Rightarrow> js_error + 'db" where
  "upsertEffect E [] db = Inr db"
| "upsertEffect E (d # ds) db =
     (case sql_upsertDevice E d db of Inl e \<Rightarrow> Inl e | Inr db' \<Rightarrow> upsertEffect E ds db')"

definition batchEffect :: "('n, 'db) engine \<Rightarrow> 'n staged \<Rightarrow> 'db \<Rightarrow> js_error + 'db" where
  "batchEffect E st db =
     (case upsertEffect E (newDevices st) db of
        Inl e \<Rightarrow> Inl e
      | Inr db1 \<Rightarrow>
          (case (if newMetrics st = [] then Inr db1
                 else sql_insertMetrics E (metricRows [] (newMetrics st)) db1) of
             Inl e \<Rightarrow> Inl e
           | Inr db2 \<Rightarrow>
               (case (if metricValues st = [] then Inr db2
                      else sql_insertValues E (metricValues st) db2) of
                  Inl e \<Rightarrow> Inl e
                | Inr db3 \<Rightarrow> sql_commit E db3)))"

text \<open>
  An instance of the engine for concrete runs, over the tables above with their primary
  keys: the upsert replaces the topic and keeps the old birth timestamp when the new
  one is absent, the metric insert skips existing ids, and the value insert fails on a
  repeated key \<open>(metric_id, ts)\<close>.
\<close>

fun upsertRow :: "DeviceRow \<Rightarrow> DeviceRow list \<Rightarrow> DeviceRow list" where
  "upsertRow r [] = [r]"
| "upsertRow r (x # xs) =
     (if d_device_name x = d_device_name r
      then x\<lparr> d_topic := d_topic r,
              d_birth_timestamp :=
                (case d_birth_timestamp r of None \<Rightarrow> d_birth_timestamp x | Some b \<Rightarrow> Some b) \<rparr> # xs
      else x # upsertRow r xs)"

fun insertMetricRows :: "(string \<times> string \<times> string) list \<Rightarrow> DeviceMetricRow list \<Rightarrow> DeviceMetricRow list"
  where
  "insertMetricRows [] tbl = tbl"
| "insertMetricRows ((i, d, m) # rows) tbl =
     insertMetricRows rows
       (if i \<in> set (map dm_id tbl) then tbl
        else tbl @ [\<lparr> dm_id = i, dm_device_name = d, dm_metric_name = m \<rparr>])"

definition storedText :: "int UValue \<Rightarrow> string option" where
  "storedText v =
     (case v of
        VNumber n \<Rightarrow> toStoredValue intNumbers (FNumber n)
      | VBoolean b \<Rightarrow> toStoredValue intNumbers (FBoolean b)
      | VString s \<Rightarrow> toStoredValue intNumbers (FString s)
      | _ \<Rightarrow> None)"

definition valueRow :: "int MetricValueRow \<Rightarrow> ValueRow" where
  "valueRow v =
     \<lparr> v_metric_id = mv_metricId v, v_ts = 1000 * mv_ts v, v_value = storedText (mv_value v),
       v_from_birth = mv_fromBirth v \<rparr>"

definition tableEngine :: "(int, database) engine" where
  "tableEngine =
     \<lparr> sql_upsertDevice = (\<lambda>d db. Inr (db\<lparr> devices :=
           upsertRow \<lparr> d_device_name = nd_deviceName d, d_topic = nd_topic d,
                       d_birth_timestamp = Some (1000 * nd_birthTimestamp d) \<rparr> (devices db) \<rparr>)),
       sql_insertMetrics = (\<lambda>rows db. Inr (db\<lparr> device_metrics :=
           insertMetricRows rows (device_metrics db) \<rparr>)),
       sql_insertValues = (\<lambda>vals db.
           (let tbl = device_metric_values db @ map valueRow vals in
            if distinct (map (\<lambda>r. (v_metric_id r, v_ts r)) tbl)
            then Inr (db\<lparr> device_metric_values := tbl \<rparr>)
            else Inl (Error ''Constraint Error: duplicate key''))),
       sql_commit = Inr \<rparr>"

definition emptyDatabase :: database where
  "emptyDatabase = \<lparr> devices = [], device_metrics = [], device_metric_values = [] \<rparr>"

definition idle :: "database \<Rightarrow> database connection" where
  "idle db = \<lparr> committed = db, working = None \<rparr>"

text \<open>
  The rows staged for \<open>birthEvent\<close>, and for a batch that holds \<open>birthEvent\<close> twice (the
  same message delivered twice).
\<close>

definition once :: "int staged" where
  "once =
     \<lparr> newDevices = [\<lparr> nd_deviceName = ''A'', nd_topic = ''spBv1.0/g/STATE/h/DBIRTH/n/A'',
                        nd_birthTimestamp = 999 \<rparr>],
       newMetrics = [(''A'', ''temp''), (''A'', ''7'')],
       metricValues =
         [\<lparr> mv_metricId = ''A/temp'', mv_ts = 1000, mv_value = VNumber 21, mv_fromBirth = True \<rparr>,
          \<lparr> mv_metricId = ''A/7'', mv_ts = 1001, mv_value = VBoolean True, mv_fromBirth = True \<rparr>] \<rparr>"

definition twice :: "int staged" where
  "twice =
     \<lparr> newDevices = newDevices once @ newDevices once,
       newMetrics = newMetrics once @ newMetrics once,
       metricValues = metricValues once @ metricValues once \<rparr>"

chapter \<open>Properties\<close>

section \<open>Sequence numbers\<close>

lemma allocate_from:
  "seq < 256 \<Longrightarrow> allocate k seq = map (\<lambda>i. (seq + i) mod 256) [0..<k]"
proof (induction k arbitrary: seq)
  case 0
  then show ?case by simp
next
  case (Suc k)
  have step: "incrementSeqNum seq = (seq, Suc seq)"
    using Suc.prems by (simp add: incrementSeqNum_def)
  have shift: "[0..<Suc k] = 0 # map Suc [0..<k]"
    by (simp add: upt_conv_Cons map_Suc_upt del: upt_Suc)
  show ?case
  proof (cases "Suc seq = 256")
    case True
    have "allocate k 256 = allocate k 0"
      by (cases k) (simp_all add: incrementSeqNum_def)
    moreover have "allocate k 0 = map (\<lambda>i. (0 + i) mod 256) [0..<k]"
      by (rule Suc.IH) simp
    moreover have "\<And>i. (seq + Suc i) mod 256 = i mod 256"
      using True by (metis add_Suc add_Suc_right mod_add_self1)
    ultimately show ?thesis
      using True Suc.prems
      by (simp add: incrementSeqNum_def shift comp_def del: upt_Suc)
  next
    case False
    then have lt: "Suc seq < 256" using Suc.prems by simp
    show ?thesis
      using Suc.IH [OF lt] Suc.prems by (simp add: step shift comp_def del: upt_Suc)
  qed
qed

lemma seqAfter_le: "seq \<le> 256 \<Longrightarrow> seqAfter k seq \<le> 256"
  by (induction k arbitrary: seq) (auto simp: incrementSeqNum_def)

text \<open>
  Claim C8. From the initial state the allocator returns \<open>0, 1, \<dots>, 255\<close> in increasing
  order; the 257th allocation returns 0 again; in general the \<open>i\<close>-th allocation (counted
  from 0) returns \<open>i mod 256\<close>; and in every state reached from the initial one the value
  returned next is at most 255.
\<close>

theorem incrementSeqNum_wraps:
  "allocate 256 0 = [0..<256]
   \<and> allocate 257 0 ! 256 = 0
   \<and> allocate k 0 = map (\<lambda>i. i mod 256) [0..<k]
   \<and> fst (incrementSeqNum (seqAfter k 0)) \<le> 255
   \<and> distinct (allocate 256 0)"
proof -
  have gen: "\<And>k. allocate k 0 = map (\<lambda>i. i mod 256) [0..<k]"
    using allocate_from [of 0] by simp
  have a256: "allocate 256 0 = [0..<256]"
    unfolding gen by (rule map_idI) simp
  have "allocate 257 0 ! 256 = (\<lambda>i. i mod 256) ([0..<257] ! 256)"
    unfolding gen by (rule nth_map) simp
  then have a257: "allocate 257 0 ! 256 = 0" by simp
  have "seqAfter k 0 \<le> 256" by (rule seqAfter_le) simp
  then have rng: "fst (incrementSeqNum (seqAfter k 0)) \<le> 255"
    by (auto simp: incrementSeqNum_def Let_def)
  have "distinct (allocate 256 0)" unfolding a256 by simp
  with gen a256 a257 rng show ?thesis by simp
qed

section \<open>Scheduler: definitions are drained before updates\<close>

lemma fillBatch_take:
  "fillBatch batch q =
     (batch @ take (MAX_BATCH_MESSAGES - length batch) q, drop (MAX_BATCH_MESSAGES - length batch) q)"
proof (induction q arbitrary: batch)
  case Nil
  then show ?case by simp
next
  case (Cons e q)
  show ?case
  proof (cases "length batch < MAX_BATCH_MESSAGES")
    case True
    then obtain k where k: "MAX_BATCH_MESSAGES - length batch = Suc k"
      by (metis Suc_diff_Suc)
    then have "MAX_BATCH_MESSAGES - length (batch @ [e]) = k" by simp
    with Cons.IH [of "batch @ [e]"] True k show ?thesis by simp
  next
    case False
    then show ?thesis by simp
  qed
qed

lemma before_append:
  "before (xs @ ys) a b \<longleftrightarrow> before xs a b \<or> before ys a b \<or> (a \<in> set xs \<and> b \<in> set ys)"
  by (induction xs) auto

lemma before_in_set: "before xs a b \<Longrightarrow> a \<in> set xs \<and> b \<in> set xs"
  by (induction xs) auto

lemma before_distinct: "distinct xs \<Longrightarrow> before xs a b \<Longrightarrow> \<not> before xs b a"
  by (induction xs) (auto dest: before_in_set)

text \<open>Pulling a batch of births keeps the order property.\<close>
lemma birthsFirst_births:
  assumes "birthsFirst es out" and "list_all (\<lambda>e. ev_type e = DBIRTH) batch"
  shows "birthsFirst es (out @ batch)"
  unfolding birthsFirst_def
proof (intro allI impI, elim conjE)
  fix d u
  assume b: "before es d u" and d: "ev_type d = DBIRTH" and u: "ev_type u = DDATA"
    and m: "u \<in> set (out @ batch)"
  have "u \<notin> set batch" using assms(2) u by (auto simp: list_all_iff)
  with m have "u \<in> set out" by simp
  with assms(1) b d u have "before out d u" unfolding birthsFirst_def by blast
  then show "before (out @ batch) d u" by (simp add: before_append)
qed

text \<open>Pulling a batch of updates keeps it when every birth that has arrived is out.\<close>
lemma birthsFirst_data:
  assumes "birthsFirst es out"
    and all: "\<And>d. d \<in> set es \<Longrightarrow> ev_type d = DBIRTH \<Longrightarrow> d \<in> set out"
  shows "birthsFirst es (out @ batch)"
  unfolding birthsFirst_def
proof (intro allI impI, elim conjE)
  fix d u
  assume b: "before es d u" and d: "ev_type d = DBIRTH" and u: "ev_type u = DDATA"
    and m: "u \<in> set (out @ batch)"
  show "before (out @ batch) d u"
  proof (cases "u \<in> set out")
    case True
    with assms(1) b d u have "before out d u" unfolding birthsFirst_def by blast
    then show ?thesis by (simp add: before_append)
  next
    case False
    with m have ub: "u \<in> set batch" by simp
    have "d \<in> set es" using b before_in_set by fast
    then have "d \<in> set out" using all d by blast
    with ub show ?thesis by (simp add: before_append)
  qed
qed

lemma drainLoop_cases:
  "drainLoop s =
     (if birthQueue s \<noteq> [] then
        s\<lparr>birthQueue := drop MAX_BATCH_MESSAGES (birthQueue s),
          drainedBatches := drainedBatches s @ [take MAX_BATCH_MESSAGES (birthQueue s)]\<rparr>
      else if dataQueue s \<noteq> [] then
        s\<lparr>dataQueue := drop MAX_BATCH_MESSAGES (dataQueue s),
          drainedBatches := drainedBatches s @ [take MAX_BATCH_MESSAGES (dataQueue s)]\<rparr>
      else s\<lparr>draining := False\<rparr>)"
  by (simp add: drainLoop_def fillBatch_take Let_def MAX_BATCH_MESSAGES_def)


lemma drainLoop_ordered:
  assumes inv: "queuesOrdered es s"
  shows "queuesOrdered es (drainLoop s)"
proof -
  let ?n = MAX_BATCH_MESSAGES
  from inv have dis: "distinct (drainedEvents s @ birthQueue s @ dataQueue s)"
    and cov: "set es = set (drainedEvents s) \<union> set (birthQueue s) \<union> set (dataQueue s)"
    and bq: "list_all (\<lambda>e. ev_type e = DBIRTH) (birthQueue s)"
    and dq: "list_all (\<lambda>e. ev_type e = DDATA) (dataQueue s)"
    and ord: "birthsFirst es (drainedEvents s)"
    by (simp_all add: queuesOrdered_def)
  show ?thesis
  proof (cases "birthQueue s = []")
    case False
    let ?b = "take ?n (birthQueue s)" and ?r = "drop ?n (birthQueue s)"
    have split: "birthQueue s = ?b @ ?r" by simp
    have eq: "drainLoop s = s\<lparr>birthQueue := ?r, drainedBatches := drainedBatches s @ [?b]\<rparr>"
      using False by (simp add: drainLoop_cases)
    have d': "drainedEvents (drainLoop s) = drainedEvents s @ ?b" by (simp add: eq drainedEvents_def)
    have q': "birthQueue (drainLoop s) = ?r" "dataQueue (drainLoop s) = dataQueue s"
      by (simp_all add: eq)
    have 1: "distinct ((drainedEvents s @ ?b) @ ?r @ dataQueue s)"
      using dis by (metis append.assoc split)
    have 2: "set es = set (drainedEvents s @ ?b) \<union> set ?r \<union> set (dataQueue s)"
      using cov by (metis Un_assoc set_append split)
    have bb: "list_all (\<lambda>e. ev_type e = DBIRTH) ?b" and br: "list_all (\<lambda>e. ev_type e = DBIRTH) ?r"
      using bq by (metis list_all_append split)+
    have 5: "birthsFirst es (drainedEvents s @ ?b)" by (rule birthsFirst_births [OF ord bb])
    show ?thesis unfolding queuesOrdered_def d' q' using 1 2 br dq 5 by simp
  next
    case True
    note empty = True
    show ?thesis
    proof (cases "dataQueue s = []")
      case True
      with empty have "drainLoop s = s\<lparr>draining := False\<rparr>" by (simp add: drainLoop_cases)
      with inv show ?thesis by (simp add: queuesOrdered_def drainedEvents_def)
    next
      case False
      let ?b = "take ?n (dataQueue s)" and ?r = "drop ?n (dataQueue s)"
      have split: "dataQueue s = ?b @ ?r" by simp
      have eq: "drainLoop s = s\<lparr>dataQueue := ?r, drainedBatches := drainedBatches s @ [?b]\<rparr>"
        using False empty by (simp add: drainLoop_cases)
      have d': "drainedEvents (drainLoop s) = drainedEvents s @ ?b" by (simp add: eq drainedEvents_def)
      have q': "birthQueue (drainLoop s) = []" "dataQueue (drainLoop s) = ?r"
        by (simp_all add: eq empty)
      have 1: "distinct ((drainedEvents s @ ?b) @ [] @ ?r)"
        using dis empty by (metis append.assoc append_Nil split)
      have 2: "set es = set (drainedEvents s @ ?b) \<union> set [] \<union> set ?r"
        using cov empty by (metis Un_assoc Un_empty_right set_append split list.set(1))
      have dr: "list_all (\<lambda>e. ev_type e = DDATA) ?r"
        using dq by (metis list_all_append split)
      have out: "\<And>d. d \<in> set es \<Longrightarrow> ev_type d = DBIRTH \<Longrightarrow> d \<in> set (drainedEvents s)"
        using cov empty dq by (auto simp: list_all_iff)
      have 5: "birthsFirst es (drainedEvents s @ ?b)" by (rule birthsFirst_data [OF ord out])
      show ?thesis unfolding queuesOrdered_def d' q' using 1 2 dr 5 by simp
    qed
  qed
qed

lemma flags_ordered:
  "queuesOrdered es (s\<lparr>draining := a\<rparr>) = queuesOrdered es s"
  "queuesOrdered es (s\<lparr>timer := b, drainScheduled := c\<rparr>) = queuesOrdered es s"
  "queuesOrdered es (s\<lparr>drainScheduled := c, timer := b\<rparr>) = queuesOrdered es s"
  by (simp_all add: queuesOrdered_def drainedEvents_def)

lemma drainQueues_ordered: "queuesOrdered es s \<Longrightarrow> queuesOrdered es (drainQueues s)"
  by (simp add: drainQueues_def drainLoop_ordered flags_ordered)

lemma scheduleDrain_ordered: "queuesOrdered es s \<Longrightarrow> queuesOrdered es (scheduleDrain s)"
  by (simp add: scheduleDrain_def flags_ordered)

lemma birthsFirst_arrival:
  assumes ord: "birthsFirst es out" and sub: "set out \<subseteq> set es" and new: "e \<notin> set es"
  shows "birthsFirst (es @ [e]) out"
  unfolding birthsFirst_def
proof (intro allI impI, elim conjE)
  fix d u
  assume b: "before (es @ [e]) d u" and d: "ev_type d = DBIRTH" and u: "ev_type u = DDATA"
    and m: "u \<in> set out"
  have "u \<noteq> e" using m sub new by blast
  with b have "before es d u" by (simp add: before_append)
  with ord d u m show "before out d u" unfolding birthsFirst_def by blast
qed

lemma push_ordered:
  assumes inv: "queuesOrdered es s" and new: "e \<notin> set es"
  shows "queuesOrdered (es @ [e])
           (if ev_type e = DBIRTH then s\<lparr>birthQueue := birthQueue s @ [e]\<rparr>
            else s\<lparr>dataQueue := dataQueue s @ [e]\<rparr>)"
proof -
  from inv have dis: "distinct (drainedEvents s @ birthQueue s @ dataQueue s)"
    and cov: "set es = set (drainedEvents s) \<union> set (birthQueue s) \<union> set (dataQueue s)"
    and bq: "list_all (\<lambda>e. ev_type e = DBIRTH) (birthQueue s)"
    and dq: "list_all (\<lambda>e. ev_type e = DDATA) (dataQueue s)"
    and ord: "birthsFirst es (drainedEvents s)"
    by (simp_all add: queuesOrdered_def)
  have sub: "set (drainedEvents s) \<subseteq> set es" using cov by blast
  have ord': "birthsFirst (es @ [e]) (drainedEvents s)"
    by (rule birthsFirst_arrival [OF ord sub new])
  have fresh: "e \<notin> set (drainedEvents s)" "e \<notin> set (birthQueue s)" "e \<notin> set (dataQueue s)"
    using new cov by auto
  show ?thesis
  proof (cases "ev_type e")
    case DBIRTH
    then show ?thesis
      using dis cov bq dq ord' fresh by (auto simp: queuesOrdered_def drainedEvents_def)
  next
    case DDATA
    then show ?thesis
      using dis cov bq dq ord' fresh by (auto simp: queuesOrdered_def drainedEvents_def)
  qed
qed

lemma enqueueEvent_ordered:
  assumes "queuesOrdered es s" and "e \<notin> set es"
  shows "queuesOrdered (es @ [e]) (enqueueEvent e s)"
  using push_ordered [OF assms]
  by (simp add: enqueueEvent_def Let_def drainQueues_ordered scheduleDrain_ordered flags_ordered)

lemma arrivals_append:
  "arrivals (acts @ [a]) = arrivals acts @ (case a of Message e \<Rightarrow> [e] | _ \<Rightarrow> [])"
  by (induction acts rule: arrivals.induct) (auto split: action.splits)

lemma run_ordered: "distinct (arrivals acts) \<Longrightarrow> queuesOrdered (arrivals acts) (run acts)"
proof (induction acts rule: rev_induct)
  case Nil
  show ?case
    by (simp add: run_def initialScheduler_def queuesOrdered_def drainedEvents_def birthsFirst_def)
next
  case (snoc a acts)
  have r: "\<And>x. run (acts @ [x]) = step (run acts) x" by (simp add: run_def)
  show ?case
  proof (cases a)
    case (Message e)
    with snoc.prems have d: "distinct (arrivals acts)" and n: "e \<notin> set (arrivals acts)"
      by (simp_all add: arrivals_append)
    show ?thesis
      using enqueueEvent_ordered [OF snoc.IH [OF d] n] Message by (simp add: r arrivals_append)
  next
    case TimerFires
    with snoc.prems have d: "distinct (arrivals acts)" by (simp add: arrivals_append)
    show ?thesis using snoc.IH [OF d] TimerFires
      by (simp add: r arrivals_append drainQueues_ordered flags_ordered)
  next
    case BatchSettled
    with snoc.prems have d: "distinct (arrivals acts)" by (simp add: arrivals_append)
    show ?thesis using snoc.IH [OF d] BatchSettled
      by (simp add: r arrivals_append drainLoop_ordered)
  next
    case BatchThrown
    with snoc.prems have d: "distinct (arrivals acts)" by (simp add: arrivals_append)
    show ?thesis using snoc.IH [OF d] BatchThrown
      by (simp add: r arrivals_append flags_ordered)
  qed
qed

text \<open>
  Claim C1. Take any run of the scheduler: messages enqueued, the timer firing and
  transactions settling or throwing, in any order. If the enqueued events are pairwise
  different, then for every update \<open>u\<close> that has been drained into a batch, every
  definition \<open>d\<close> enqueued before \<open>u\<close> has been drained too, and strictly before \<open>u\<close>
  (never after it). The order is that of the batches the drain loop hands to the
  transaction step. Second part: from the loop head, while the definition queue is not
  empty the next batch is its first 500 events (or all of them) and the update queue is
  left alone; updates are pulled only when the definition queue is empty.
\<close>

theorem definitions_drained_first:
  "(distinct (arrivals acts) \<and> before (arrivals acts) d u
     \<and> ev_type d = DBIRTH \<and> ev_type u = DDATA \<and> u \<in> set (drainedEvents (run acts))
    \<longrightarrow> before (drainedEvents (run acts)) d u \<and> \<not> before (drainedEvents (run acts)) u d)
   \<and> (birthQueue s \<noteq> [] \<longrightarrow>
        drainLoop s =
          s\<lparr>birthQueue := drop MAX_BATCH_MESSAGES (birthQueue s),
            drainedBatches := drainedBatches s @ [take MAX_BATCH_MESSAGES (birthQueue s)]\<rparr>)
   \<and> (birthQueue s = [] \<and> dataQueue s \<noteq> [] \<longrightarrow>
        drainLoop s =
          s\<lparr>dataQueue := drop MAX_BATCH_MESSAGES (dataQueue s),
            drainedBatches := drainedBatches s @ [take MAX_BATCH_MESSAGES (dataQueue s)]\<rparr>)"
proof (intro conjI impI)
  assume a: "distinct (arrivals acts) \<and> before (arrivals acts) d u
     \<and> ev_type d = DBIRTH \<and> ev_type u = DDATA \<and> u \<in> set (drainedEvents (run acts))"
  then have "queuesOrdered (arrivals acts) (run acts)" by (simp add: run_ordered)
  then have ord: "birthsFirst (arrivals acts) (drainedEvents (run acts))"
    and dis: "distinct (drainedEvents (run acts))"
    by (simp_all add: queuesOrdered_def)
  from ord a show b: "before (drainedEvents (run acts)) d u"
    unfolding birthsFirst_def by blast
  from dis b show "\<not> before (drainedEvents (run acts)) u d" by (rule before_distinct)
next
  assume "birthQueue s \<noteq> []"
  then show "drainLoop s =
      s\<lparr>birthQueue := drop MAX_BATCH_MESSAGES (birthQueue s),
        drainedBatches := drainedBatches s @ [take MAX_BATCH_MESSAGES (birthQueue s)]\<rparr>"
    by (simp add: drainLoop_cases)
next
  assume "birthQueue s = [] \<and> dataQueue s \<noteq> []"
  then show "drainLoop s =
      s\<lparr>dataQueue := drop MAX_BATCH_MESSAGES (dataQueue s),
        drainedBatches := drainedBatches s @ [take MAX_BATCH_MESSAGES (dataQueue s)]\<rparr>"
    by (simp add: drainLoop_cases)
qed

lemma example_run:
  "run [Message U1, Message D1, Message U2, TimerFires, BatchSettled, BatchSettled]
   = \<lparr> birthQueue = [], dataQueue = [], drainScheduled = False, timer = False,
       draining = False, drainedBatches = [[D1], [U1, U2]] \<rparr>"
  by (simp add: run_def initialScheduler_def enqueueEvent_def scheduleDrain_def
      drainQueues_def drainLoop_def MAX_BATCH_MESSAGES_def U1_def D1_def U2_def Let_def)

text \<open>
  The run of the witness: \<open>U1\<close>, \<open>D1\<close>, \<open>U2\<close> are enqueued in this order, the timer fires
  and two transactions settle. The batches are \<open>[D1]\<close>, then \<open>[U1, U2]\<close>: the definition
  is drained before the update that arrived after it (and also before the one that
  arrived first).
\<close>

theorem definitions_drained_first_witness:
  "distinct (arrivals [Message U1, Message D1, Message U2, TimerFires, BatchSettled, BatchSettled])
   \<and> before (arrivals [Message U1, Message D1, Message U2, TimerFires, BatchSettled, BatchSettled]) D1 U2
   \<and> ev_type D1 = DBIRTH \<and> ev_type U2 = DDATA
   \<and> drainedEvents (run [Message U1, Message D1, Message U2, TimerFires, BatchSettled, BatchSettled])
       = [D1, U1, U2]
   \<and> before (drainedEvents
        (run [Message U1, Message D1, Message U2, TimerFires, BatchSettled, BatchSettled])) D1 U2
   \<and> \<not> before (drainedEvents
        (run [Message U1, Message D1, Message U2, TimerFires, BatchSettled, BatchSettled])) U2 D1
   \<and> birthQueue (run [Message U1, Message D1, Message U2] :: unit scheduler) \<noteq> []
   \<and> drainLoop (run [Message U1, Message D1, Message U2]) =
       (run [Message U1, Message D1, Message U2])
         \<lparr>birthQueue := [], drainedBatches := [[D1]]\<rparr>"
proof -
  let ?acts = "[Message U1, Message D1, Message U2, TimerFires, BatchSettled, BatchSettled]"
  let ?s = "run [Message U1, Message D1, Message U2] :: unit scheduler"
  have ev: "U1 \<noteq> D1" "D1 \<noteq> U2" "U1 \<noteq> U2" by (simp_all add: U1_def D1_def U2_def)
  have h1: "distinct (arrivals ?acts)" using ev by simp
  have h2: "before (arrivals ?acts) D1 U2" by simp
  have h3: "ev_type D1 = DBIRTH" "ev_type U2 = DDATA" by (simp_all add: D1_def U2_def)
  have out: "drainedEvents (run ?acts) = [D1, U1, U2]"
    by (simp add: example_run drainedEvents_def)
  have h4: "U2 \<in> set (drainedEvents (run ?acts))" by (simp add: out)
  have s: "?s = \<lparr> birthQueue = [D1], dataQueue = [U1, U2], drainScheduled = True,
      timer = True, draining = False, drainedBatches = [] \<rparr>"
    by (simp add: run_def initialScheduler_def enqueueEvent_def scheduleDrain_def
        MAX_BATCH_MESSAGES_def U1_def D1_def U2_def Let_def)
  have h5: "birthQueue ?s \<noteq> []" by (simp add: s)
  from definitions_drained_first [of ?acts D1 U2 ?s] h1 h2 h3 h4 h5
  have c: "before (drainedEvents (run ?acts)) D1 U2
      \<and> \<not> before (drainedEvents (run ?acts)) U2 D1
      \<and> drainLoop ?s =
          ?s\<lparr>birthQueue := drop MAX_BATCH_MESSAGES (birthQueue ?s),
            drainedBatches := drainedBatches ?s @ [take MAX_BATCH_MESSAGES (birthQueue ?s)]\<rparr>"
    by blast
  have "drop MAX_BATCH_MESSAGES (birthQueue ?s) = []"
    "drainedBatches ?s @ [take MAX_BATCH_MESSAGES (birthQueue ?s)] = [[D1]]"
    by (simp_all add: s MAX_BATCH_MESSAGES_def)
  with c h1 h2 h3 out h5 show ?thesis by simp
qed

section \<open>Ingestion entry point: which messages are enqueued\<close>

lemma js_split_nonempty: "js_split c s \<noteq> []"
  by (induction s) (auto split: list.splits)

lemma js_split_segment:
  "c \<notin> set a \<Longrightarrow> js_split c (a @ c # s) = a # js_split c s"
  by (induction a) (auto split: list.splits)

lemma js_split_first:
  "c \<notin> set a \<Longrightarrow> \<exists>p ps. js_split c (a @ s) = (a @ p) # ps"
proof (induction a)
  case Nil
  then show ?case using js_split_nonempty [of c s] by (cases "js_split c s") auto
next
  case (Cons x a)
  then obtain p ps where "js_split c (a @ s) = (a @ p) # ps" by auto
  with Cons.prems show ?case by auto
qed

lemma js_join_split: "js_join [c] (js_split c s) = s"
proof (induction s)
  case Nil
  then show ?case by simp
next
  case (Cons x s)
  obtain p ps where sp: "js_split c s = p # ps"
    using js_split_nonempty [of c s] by (cases "js_split c s") auto
  show ?case
  proof (cases "x = c")
    case True
    with Cons sp show ?thesis by simp
  next
    case False
    with Cons sp show ?thesis by (cases ps) auto
  qed
qed

lemma js_split_parts: "p \<in> set (js_split c s) \<Longrightarrow> c \<notin> set p"
proof (induction s arbitrary: p)
  case Nil
  then show ?case by simp
next
  case (Cons x s)
  obtain q qs where sp: "js_split c s = q # qs"
    using js_split_nonempty [of c s] by (cases "js_split c s") auto
  show ?case
  proof (cases "x = c")
    case True
    with Cons sp show ?thesis by auto
  next
    case False
    with Cons.prems sp have "p = x # q \<or> p \<in> set qs" by auto
    with Cons.IH sp False show ?thesis by auto
  qed
qed

lemma documentedSystemTopic_shape:
  assumes "documentedSystemTopic systemTopic"
  shows "\<exists>g. CHR ''/'' \<notin> set g \<and> systemTopic = ''spBv1.0/'' @ g @ ''/STATE''"
proof -
  from assms obtain g where sp: "js_split CHR ''/'' systemTopic = [''spBv1.0'', g, ''STATE'']"
    unfolding documentedSystemTopic_def by (auto split: list.splits)
  have "g \<in> set (js_split CHR ''/'' systemTopic)" by (simp add: sp)
  then have g: "CHR ''/'' \<notin> set g" by (rule js_split_parts)
  have "systemTopic = js_join ''/'' (js_split CHR ''/'' systemTopic)"
    by (simp add: js_join_split)
  then have "systemTopic = ''spBv1.0/'' @ g @ ''/STATE''" by (simp add: sp)
  with g show ?thesis by blast
qed

lemma behind_prefix_type:
  assumes "documentedSystemTopic systemTopic" and "startsWith topic systemTopic"
  shows "\<exists>r. messageType (parseTopic topic) = Some (''STATE'' @ r)"
proof -
  from documentedSystemTopic_shape [OF assms(1)] obtain g where g: "CHR ''/'' \<notin> set g"
    and sys: "systemTopic = ''spBv1.0/'' @ g @ ''/STATE''"
    by blast
  from assms(2) have "topic = systemTopic @ drop (length systemTopic) topic"
    unfolding startsWith_def by (metis append_take_drop_id)
  then obtain rest where t: "topic = ''spBv1.0'' @ CHR ''/'' # g @ CHR ''/'' # ''STATE'' @ rest"
    unfolding sys by (metis append.assoc append_Cons append_Nil)
  have ns: "CHR ''/'' \<notin> set ''spBv1.0''" and st: "CHR ''/'' \<notin> set ''STATE''" by simp_all
  from js_split_first [OF st, of rest] obtain p ps
    where third: "js_split CHR ''/'' (''STATE'' @ rest) = (''STATE'' @ p) # ps" by blast
  have "js_split CHR ''/'' topic = ''spBv1.0'' # g # (''STATE'' @ p) # ps"
    unfolding t using js_split_segment [OF ns] js_split_segment [OF g] third by simp
  then show ?thesis by (simp add: parseTopic_def js_index_def Let_def)
qed

text \<open>
  Claim C10. With the system topic of the documented form \<open>spBv1.0/{groupId}/STATE\<close>, a
  topic behind that prefix never parses to \<open>DDATA\<close> (its third segment begins with
  \<open>STATE\<close>), so the two branches of the listener do not overlap. An event is enqueued
  if and only if (i) the topic starts with the system-topic prefix and, with two
  segments stripped, parses to \<open>DBIRTH\<close> with no residual segments, or (ii) the topic
  starts with \<open>spBv1.0/\<close> and parses to \<open>DDATA\<close>; in case (i) a definition event is
  enqueued, in case (ii) an update event, and the stored data is left as it is. Every
  other message leaves the queues and the stored data unchanged; in particular one
  whose type, as the listener reads it, is \<open>NBIRTH\<close>, \<open>NDEATH\<close>, \<open>DDEATH\<close>, \<open>NDATA\<close>,
  \<open>NCMD\<close>, \<open>DCMD\<close> or \<open>STATE\<close>.
\<close>

theorem ingestMessage_enqueues:
  "documentedSystemTopic systemTopic \<longrightarrow>
     ((messageEvent systemTopic topic payload now \<noteq> None) =
        (startsWith topic systemTopic
           \<and> otherParts (parseCertificateTopic topic) = []
           \<and> messageType (parseCertificateTopic topic) = Some ''DBIRTH''
         \<or> startsWith topic ''spBv1.0/'' \<and> messageType (parseTopic topic) = Some ''DDATA''))
     \<and> (startsWith topic systemTopic
           \<and> otherParts (parseCertificateTopic topic) = []
           \<and> messageType (parseCertificateTopic topic) = Some ''DBIRTH''
         \<longrightarrow> ingestMessage systemTopic topic payload now (s, db) =
               (enqueueEvent \<lparr> ev_type = DBIRTH, ev_topic = topic, ev_payload = payload,
                                ev_receivedAt = now \<rparr> s, db))
     \<and> (startsWith topic ''spBv1.0/'' \<and> messageType (parseTopic topic) = Some ''DDATA''
         \<longrightarrow> ingestMessage systemTopic topic payload now (s, db) =
               (enqueueEvent \<lparr> ev_type = DDATA, ev_topic = topic, ev_payload = payload,
                                ev_receivedAt = now \<rparr> s, db))
     \<and> (messageEvent systemTopic topic payload now = None
         \<longrightarrow> ingestMessage systemTopic topic payload now (s, db) = (s, db))
     \<and> (handledType systemTopic topic \<in> set (map Some otherMessageTypes)
         \<longrightarrow> ingestMessage systemTopic topic payload now (s, db) = (s, db))"
proof (intro impI)
  assume doc: "documentedSystemTopic systemTopic"
  let ?birth = "startsWith topic systemTopic
           \<and> otherParts (parseCertificateTopic topic) = []
           \<and> messageType (parseCertificateTopic topic) = Some ''DBIRTH''"
  let ?data = "startsWith topic ''spBv1.0/'' \<and> messageType (parseTopic topic) = Some ''DDATA''"
  have excl: "startsWith topic systemTopic \<Longrightarrow> messageType (parseTopic topic) \<noteq> Some ''DDATA''"
    using behind_prefix_type [OF doc] by fastforce
  have ev: "messageEvent systemTopic topic payload now =
      (if ?birth then Some \<lparr> ev_type = DBIRTH, ev_topic = topic, ev_payload = payload,
                              ev_receivedAt = now \<rparr>
       else if ?data then Some \<lparr> ev_type = DDATA, ev_topic = topic, ev_payload = payload,
                              ev_receivedAt = now \<rparr>
       else None)"
    using excl by (auto simp: messageEvent_def Let_def)
  have other: "messageEvent systemTopic topic payload now = None"
    if h: "handledType systemTopic topic \<in> set (map Some otherMessageTypes)"
  proof (cases "startsWith topic systemTopic")
    case True
    with h have "messageType (parseCertificateTopic topic) \<in> set (map Some otherMessageTypes)"
      by (simp add: handledType_def)
    then have "messageType (parseCertificateTopic topic) \<noteq> Some ''DBIRTH''"
      by (auto simp: otherMessageTypes_def)
    with True excl show ?thesis by (simp add: ev)
  next
    case False
    with h have "messageType (parseTopic topic) \<in> set (map Some otherMessageTypes)"
      by (simp add: handledType_def)
    then have "messageType (parseTopic topic) \<noteq> Some ''DDATA''"
      by (auto simp: otherMessageTypes_def)
    with False show ?thesis by (simp add: ev)
  qed
  show "((messageEvent systemTopic topic payload now \<noteq> None) = (?birth \<or> ?data))
     \<and> (?birth
         \<longrightarrow> ingestMessage systemTopic topic payload now (s, db) =
               (enqueueEvent \<lparr> ev_type = DBIRTH, ev_topic = topic, ev_payload = payload,
                                ev_receivedAt = now \<rparr> s, db))
     \<and> (?data
         \<longrightarrow> ingestMessage systemTopic topic payload now (s, db) =
               (enqueueEvent \<lparr> ev_type = DDATA, ev_topic = topic, ev_payload = payload,
                                ev_receivedAt = now \<rparr> s, db))
     \<and> (messageEvent systemTopic topic payload now = None
         \<longrightarrow> ingestMessage systemTopic topic payload now (s, db) = (s, db))
     \<and> (handledType systemTopic topic \<in> set (map Some otherMessageTypes)
         \<longrightarrow> ingestMessage systemTopic topic payload now (s, db) = (s, db))"
  proof (intro conjI impI)
    show "(messageEvent systemTopic topic payload now \<noteq> None) = (?birth \<or> ?data)"
      unfolding ev by simp
  next
    assume b: ?birth
    then show "ingestMessage systemTopic topic payload now (s, db) =
               (enqueueEvent \<lparr> ev_type = DBIRTH, ev_topic = topic, ev_payload = payload,
                                ev_receivedAt = now \<rparr> s, db)"
      by (simp add: ingestMessage_def onMessage_def ev)
  next
    assume d: ?data
    with excl have "\<not> startsWith topic systemTopic" by blast
    with d show "ingestMessage systemTopic topic payload now (s, db) =
               (enqueueEvent \<lparr> ev_type = DDATA, ev_topic = topic, ev_payload = payload,
                                ev_receivedAt = now \<rparr> s, db)"
      by (simp add: ingestMessage_def onMessage_def ev)
  next
    assume "messageEvent systemTopic topic payload now = None"
    then show "ingestMessage systemTopic topic payload now (s, db) = (s, db)"
      by (simp add: ingestMessage_def onMessage_def)
  next
    assume "handledType systemTopic topic \<in> set (map Some otherMessageTypes)"
    from other [OF this] show "ingestMessage systemTopic topic payload now (s, db) = (s, db)"
      by (simp add: ingestMessage_def onMessage_def)
  qed
qed

text \<open>
  The witness, with the system topic \<open>spBv1.0/g/STATE\<close>: a \<open>DBIRTH\<close> behind the prefix is
  enqueued as a definition, a \<open>DDATA\<close> as an update, and an \<open>NDATA\<close> changes neither the
  queues nor the stored data.
\<close>

theorem ingestMessage_enqueues_witness:
  "documentedSystemTopic ''spBv1.0/g/STATE''
   \<and> startsWith ''spBv1.0/g/STATE/h/DBIRTH/n/A'' ''spBv1.0/g/STATE''
   \<and> otherParts (parseCertificateTopic ''spBv1.0/g/STATE/h/DBIRTH/n/A'') = []
   \<and> messageType (parseCertificateTopic ''spBv1.0/g/STATE/h/DBIRTH/n/A'') = Some ''DBIRTH''
   \<and> ingestMessage ''spBv1.0/g/STATE'' ''spBv1.0/g/STATE/h/DBIRTH/n/A'' () 2
        (initialScheduler, emptyDatabase)
       = (initialScheduler \<lparr> birthQueue := [D1], drainScheduled := True, timer := True \<rparr>,
          emptyDatabase)
   \<and> startsWith ''spBv1.0/g/DDATA/n/A'' ''spBv1.0/''
   \<and> messageType (parseTopic ''spBv1.0/g/DDATA/n/A'') = Some ''DDATA''
   \<and> ingestMessage ''spBv1.0/g/STATE'' ''spBv1.0/g/DDATA/n/A'' () 1
        (initialScheduler, emptyDatabase)
       = (initialScheduler \<lparr> dataQueue := [U1], drainScheduled := True, timer := True \<rparr>,
          emptyDatabase)
   \<and> handledType ''spBv1.0/g/STATE'' ''spBv1.0/g/NDATA/n'' = Some ''NDATA''
   \<and> messageEvent ''spBv1.0/g/STATE'' ''spBv1.0/g/NDATA/n'' () 7 = None
   \<and> ingestMessage ''spBv1.0/g/STATE'' ''spBv1.0/g/NDATA/n'' () 7
        (initialScheduler :: unit scheduler, emptyDatabase)
       = (initialScheduler, emptyDatabase)"
proof -
  let ?sys = "''spBv1.0/g/STATE''"
  let ?b = "''spBv1.0/g/STATE/h/DBIRTH/n/A''" and ?d = "''spBv1.0/g/DDATA/n/A''"
  let ?n = "''spBv1.0/g/NDATA/n''"
  have doc: "documentedSystemTopic ?sys" by (simp add: documentedSystemTopic_def)
  have b: "startsWith ?b ?sys \<and> otherParts (parseCertificateTopic ?b) = []
      \<and> messageType (parseCertificateTopic ?b) = Some ''DBIRTH''"
    by (simp add: startsWith_def parseCertificateTopic_def parseTopic_def js_index_def Let_def)
  have d: "startsWith ?d ''spBv1.0/'' \<and> messageType (parseTopic ?d) = Some ''DDATA''"
    by (simp add: startsWith_def parseTopic_def js_index_def Let_def)
  have n: "handledType ?sys ?n = Some ''NDATA''"
    by (simp add: handledType_def startsWith_def parseTopic_def js_index_def Let_def)
  then have n': "handledType ?sys ?n \<in> set (map Some otherMessageTypes)"
    by (simp add: otherMessageTypes_def)
  have 1: "ingestMessage ?sys ?b () 2 (initialScheduler, emptyDatabase)
      = (enqueueEvent \<lparr> ev_type = DBIRTH, ev_topic = ?b, ev_payload = (), ev_receivedAt = 2 \<rparr>
           initialScheduler, emptyDatabase)"
    using ingestMessage_enqueues [of ?sys ?b "()" 2 initialScheduler emptyDatabase] doc b
    by blast
  have 2: "ingestMessage ?sys ?d () 1 (initialScheduler, emptyDatabase)
      = (enqueueEvent \<lparr> ev_type = DDATA, ev_topic = ?d, ev_payload = (), ev_receivedAt = 1 \<rparr>
           initialScheduler, emptyDatabase)"
    using ingestMessage_enqueues [of ?sys ?d "()" 1 initialScheduler emptyDatabase] doc d
    by blast
  have 3: "ingestMessage ?sys ?n () 7 (initialScheduler :: unit scheduler, emptyDatabase)
      = (initialScheduler, emptyDatabase)"
    using ingestMessage_enqueues [of ?sys ?n "()" 7 "initialScheduler :: unit scheduler"
        emptyDatabase] doc n'
    by blast
  have 4: "messageEvent ?sys ?n () 7 = None"
    by (simp add: messageEvent_def startsWith_def parseTopic_def js_index_def Let_def)
  have e1: "enqueueEvent \<lparr> ev_type = DBIRTH, ev_topic = ?b, ev_payload = (), ev_receivedAt = 2 \<rparr>
           initialScheduler
      = initialScheduler \<lparr> birthQueue := [D1], drainScheduled := True, timer := True \<rparr>"
    by (simp add: enqueueEvent_def scheduleDrain_def initialScheduler_def D1_def
        MAX_BATCH_MESSAGES_def Let_def)
  have e2: "enqueueEvent \<lparr> ev_type = DDATA, ev_topic = ?d, ev_payload = (), ev_receivedAt = 1 \<rparr>
           initialScheduler
      = initialScheduler \<lparr> dataQueue := [U1], drainScheduled := True, timer := True \<rparr>"
    by (simp add: enqueueEvent_def scheduleDrain_def initialScheduler_def U1_def
        MAX_BATCH_MESSAGES_def Let_def)
  from doc b d n 1 2 3 4 show ?thesis unfolding e1 e2 by simp
qed

text \<open>
  The type of a message behind the system-topic prefix is the one read after stripping:
  the topic of the witness, read as it is, has \<open>STATE\<close> in the place of the type, and
  the listener reads \<open>DBIRTH\<close>.
\<close>

lemma certificate_topic_type:
  "messageType (parseTopic ''spBv1.0/g/STATE/h/DBIRTH/n/A'') = Some ''STATE''
   \<and> handledType ''spBv1.0/g/STATE'' ''spBv1.0/g/STATE/h/DBIRTH/n/A'' = Some ''DBIRTH''"
  by (simp add: handledType_def startsWith_def parseCertificateTopic_def parseTopic_def
      js_index_def Let_def)

text \<open>
  The form of the system topic matters: with a system topic cut short of its third
  segment, an update topic lies behind the prefix and is not enqueued.
\<close>

lemma short_system_topic:
  "\<not> documentedSystemTopic ''spBv1.0/sp_group''
   \<and> startsWith ''spBv1.0/sp_group/DDATA/n1/d1'' ''spBv1.0/''
   \<and> messageType (parseTopic ''spBv1.0/sp_group/DDATA/n1/d1'') = Some ''DDATA''
   \<and> messageEvent ''spBv1.0/sp_group'' ''spBv1.0/sp_group/DDATA/n1/d1'' () 0 = None"
  by (simp add: documentedSystemTopic_def messageEvent_def startsWith_def parseTopic_def
      parseCertificateTopic_def js_index_def Let_def)

section \<open>Metric values: templates\<close>

text \<open>
  Claim C4. On a metric of type \<open>Template\<close> whose value is a template:
  a template definition yields no value (\<^verbatim>\<open>null\<close>); an instance whose
  \<open>templateRef\<close> starts with \<open>baja:Status\<close> yields the value of its first child metric
  named \<open>value\<close>, computed by the same function, and no value when it has no such child;
  every other template yields no value. For example a status template with a child
  \<open>value\<close> of type \<open>Int32\<close> and value 42 yields 42.
\<close>

theorem getMetricValue_template:
  "(m_type metric = ''Template'' \<and> m_value metric = VTemplate template \<longrightarrow>
      getMetricValue J metric =
        (if t_isDefinition template = Some True then Inr VNull
         else if startsWith (t_templateRef template) ''baja:Status'' then
           (case find (\<lambda>m. m_name m = Some ''value'') (t_metrics template) of
              None \<Rightarrow> Inr VNull
            | Some valueMetric \<Rightarrow> getMetricValue J valueMetric)
         else Inr VNull))
   \<and> getMetricValue J
        (UMetric name alias ''Template''
          (VTemplate (UTemplate (Some False) (''baja:Status'' @ suffix)
             [UMetric (Some ''value'') None ''Int32'' (VNumber 42) None])) stamp)
       = Inr (VNumber 42)"
proof (intro conjI impI)
  assume "m_type metric = ''Template'' \<and> m_value metric = VTemplate template"
  then show "getMetricValue J metric =
        (if t_isDefinition template = Some True then Inr VNull
         else if startsWith (t_templateRef template) ''baja:Status'' then
           (case find (\<lambda>m. m_name m = Some ''value'') (t_metrics template) of
              None \<Rightarrow> Inr VNull
            | Some valueMetric \<Rightarrow> getMetricValue J valueMetric)
         else Inr VNull)"
    by (subst getMetricValue.simps) (simp add: numericTypes_def)
next
  have child: "getMetricValue J (UMetric (Some ''value'') None ''Int32'' (VNumber 42) None)
      = Inr (VNumber 42)"
    by (subst getMetricValue.simps) (simp add: numericTypes_def makeNumber_def)
  show "getMetricValue J
        (UMetric name alias ''Template''
          (VTemplate (UTemplate (Some False) (''baja:Status'' @ suffix)
             [UMetric (Some ''value'') None ''Int32'' (VNumber 42) None])) stamp)
       = Inr (VNumber 42)"
    by (subst getMetricValue.simps) (simp add: numericTypes_def startsWith_def child)
qed

text \<open>The witness: the status template \<open>statusMetric\<close>, whose second child is \<open>value\<close>.\<close>

theorem getMetricValue_template_witness:
  "m_type statusMetric = ''Template''
   \<and> m_value statusMetric =
       VTemplate (UTemplate (Some False) ''baja:StatusNumeric''
          [UMetric (Some ''status'') None ''String'' (VString ''ok'') None,
           UMetric (Some ''value'') None ''Int32'' (VNumber 42) None])
   \<and> getMetricValue intNumbers statusMetric = Inr (VNumber 42)"
proof -
  let ?t = "UTemplate (Some False) ''baja:StatusNumeric''
          [UMetric (Some ''status'') None ''String'' (VString ''ok'') None,
           UMetric (Some ''value'') None ''Int32'' (VNumber (42 :: int)) None]"
  have h: "m_type statusMetric = ''Template'' \<and> m_value statusMetric = VTemplate ?t"
    by (simp add: statusMetric_def)
  have child: "getMetricValue intNumbers (UMetric (Some ''value'') None ''Int32'' (VNumber 42) None)
      = Inr (VNumber 42)"
    by (subst getMetricValue.simps) (simp add: numericTypes_def makeNumber_def)
  from getMetricValue_template [of statusMetric ?t intNumbers] h
  have "getMetricValue intNumbers statusMetric =
      (if t_isDefinition ?t = Some True then Inr VNull
       else if startsWith (t_templateRef ?t) ''baja:Status'' then
         (case find (\<lambda>m. m_name m = Some ''value'') (t_metrics ?t) of
            None \<Rightarrow> Inr VNull
          | Some valueMetric \<Rightarrow> getMetricValue intNumbers valueMetric)
       else Inr VNull)"
    by blast
  then have "getMetricValue intNumbers statusMetric = Inr (VNumber 42)"
    by (simp add: startsWith_def child)
  with h show ?thesis by simp
qed

section \<open>Staging: metrics without a usable value\<close>

lemma stageBirthMetrics_rows:
  "stageBirthMetrics J dev ms st = Inr st' \<Longrightarrow>
     newDevices st' = newDevices st
     \<and> newMetrics st' = newMetrics st @ map (\<lambda>m. (dev, rowName J m)) (filter (retained J) ms)
     \<and> map mv_metricId (metricValues st') =
         map mv_metricId (metricValues st)
           @ map (\<lambda>m. metricId dev (rowName J m)) (filter (retained J) ms)"
proof (induction ms arbitrary: st)
  case Nil
  then show ?case by simp
next
  case (Cons m ms)
  show ?case
  proof (cases "retained J m")
    case False
    then have "stageBirthMetrics J dev (m # ms) st = stageBirthMetrics J dev ms st
        \<or> (\<exists>e. stageBirthMetrics J dev (m # ms) st = Inl e)"
      by (auto simp: retained_def split: option.splits sum.splits)
    with Cons.prems have "stageBirthMetrics J dev ms st = Inr st'" by auto
    from Cons.IH [OF this] False show ?thesis by simp
  next
    case True
    then obtain name val where n: "resolveMetricName J m = Some name" "name \<noteq> []"
      and v: "getMetricValue J m = Inr val" "val \<noteq> VNull" "val \<noteq> VUndefined"
      by (auto simp: retained_def split: option.splits sum.splits)
    from Cons.prems n v obtain tstamp where t: "ts J (m_timestamp m) = Inr tstamp"
      by (auto split: sum.splits)
    let ?st = "st\<lparr> newMetrics := newMetrics st @ [(dev, name)],
                   metricValues := metricValues st @
                     [\<lparr> mv_metricId = metricId dev name, mv_ts = tstamp,
                        mv_value = val, mv_fromBirth = True \<rparr>] \<rparr>"
    have "stageBirthMetrics J dev ms ?st = Inr st'"
      using Cons.prems n v t by simp
    from Cons.IH [OF this] True n show ?thesis by (simp add: rowName_def)
  qed
qed

lemma birthMetrics_values:
  "getMetricValue J (birthMetrics ! 0) = Inr (VNumber 21)"
  "getMetricValue J (birthMetrics ! 1) = Inr VNull"
  "getMetricValue J (birthMetrics ! 2) = Inr VNull"
  "getMetricValue J (birthMetrics ! 3) = Inr (VBoolean True)"
  by (simp_all add: birthMetrics_def getMetricValue.simps numericTypes_def makeNumber_def)

lemma dec7: "int_toString 7 = ''7''" by (simp add: int_toString_def decimal.simps)

lemma birthEvent_staged:
  "stageEvent intNumbers birthEvent emptyStaged =
     Inr \<lparr> newDevices = [\<lparr> nd_deviceName = ''A'', nd_topic = ''spBv1.0/g/STATE/h/DBIRTH/n/A'',
                            nd_birthTimestamp = 999 \<rparr>],
           newMetrics = [(''A'', ''temp''), (''A'', ''7'')],
           metricValues =
             [\<lparr> mv_metricId = ''A/temp'', mv_ts = 1000, mv_value = VNumber 21, mv_fromBirth = True \<rparr>,
              \<lparr> mv_metricId = ''A/7'', mv_ts = 1001, mv_value = VBoolean True, mv_fromBirth = True \<rparr>] \<rparr>"
  using birthMetrics_values [of intNumbers]
  by (simp add: stageEvent_def birthEvent_def parseCertificateTopic_def parseTopic_def js_index_def
      Let_def ts_def payloadMetrics_def emptyStaged_def birthMetrics_def resolveMetricName_def
      Long_toInt_def dec7 metricId_def)

text \<open>
  Claim C7. When a \<^verbatim>\<open>DBIRTH\<close> event of device \<open>dev\<close> is staged, the definition rows
  added are exactly those of the metrics that are retained (a non-empty resolved name
  and a value that is neither \<^verbatim>\<open>null\<close> nor \<^verbatim>\<open>undefined\<close>), in order, and the
  value rows added have the same metric ids. A metric whose resolved name is missing or
  empty, or whose value is \<^verbatim>\<open>null\<close> or \<^verbatim>\<open>undefined\<close>, is passed over by the
  loop: staging with it equals staging without it, so it adds neither a definition row
  nor a value row.
\<close>

theorem unusable_metrics_not_staged:
  "(ev_type evt = DBIRTH \<and> stageEvent J evt st = Inr st'
      \<and> deviceId (parseCertificateTopic (ev_topic evt)) = Some dev \<and> dev \<noteq> [] \<longrightarrow>
      newMetrics st' =
        newMetrics st
          @ map (\<lambda>m. (dev, rowName J m)) (filter (retained J) (payloadMetrics (ev_payload evt)))
      \<and> map mv_metricId (metricValues st') =
          map mv_metricId (metricValues st)
            @ map (\<lambda>m. metricId dev (rowName J m))
                (filter (retained J) (payloadMetrics (ev_payload evt))))
   \<and> (resolveMetricName J m = None \<or> resolveMetricName J m = Some []
        \<or> getMetricValue J m = Inr VNull \<or> getMetricValue J m = Inr VUndefined \<longrightarrow>
        \<not> retained J m
        \<and> stageBirthMetrics J dev' (m # ms) st0 = stageBirthMetrics J dev' ms st0)"
proof (intro conjI impI)
  assume a: "ev_type evt = DBIRTH \<and> stageEvent J evt st = Inr st'
      \<and> deviceId (parseCertificateTopic (ev_topic evt)) = Some dev \<and> dev \<noteq> []"
  then obtain birth where
    "stageBirthMetrics J dev (payloadMetrics (ev_payload evt))
       (st\<lparr> newDevices := newDevices st @
              [\<lparr> nd_deviceName = dev, nd_topic = ev_topic evt, nd_birthTimestamp = birth \<rparr>] \<rparr>)
     = Inr st'"
    by (auto simp: stageEvent_def split: sum.splits)
  from stageBirthMetrics_rows [OF this]
  show "newMetrics st' =
        newMetrics st
          @ map (\<lambda>m. (dev, rowName J m)) (filter (retained J) (payloadMetrics (ev_payload evt)))"
    and "map mv_metricId (metricValues st') =
          map mv_metricId (metricValues st)
            @ map (\<lambda>m. metricId dev (rowName J m))
                (filter (retained J) (payloadMetrics (ev_payload evt)))"
    by simp_all
next
  assume a: "resolveMetricName J m = None \<or> resolveMetricName J m = Some []
        \<or> getMetricValue J m = Inr VNull \<or> getMetricValue J m = Inr VUndefined"
  then show "\<not> retained J m"
    by (auto simp: retained_def split: option.splits)
  from a show "stageBirthMetrics J dev' (m # ms) st0 = stageBirthMetrics J dev' ms st0"
    by (auto split: option.splits)
qed

text \<open>
  The witness: staging \<open>birthEvent\<close> records the number \<open>temp\<close> and the aliased boolean
  (under its alias \<open>7\<close>), and nothing for the \<open>DateTime\<close> metric, the template
  definition and the metric with the empty name.
\<close>

theorem unusable_metrics_not_staged_witness:
  "ev_type birthEvent = DBIRTH
   \<and> deviceId (parseCertificateTopic (ev_topic birthEvent)) = Some ''A''
   \<and> (\<exists>st'. stageEvent intNumbers birthEvent emptyStaged = Inr st'
         \<and> newMetrics st' = [(''A'', ''temp''), (''A'', ''7'')]
         \<and> map mv_metricId (metricValues st') = [''A/temp'', ''A/7''])
   \<and> map (\<lambda>m. (''A'', rowName intNumbers m))
        (filter (retained intNumbers) (payloadMetrics (ev_payload birthEvent)))
       = [(''A'', ''temp''), (''A'', ''7'')]
   \<and> getMetricValue intNumbers (birthMetrics ! 1) = Inr VNull
   \<and> \<not> retained intNumbers (birthMetrics ! 1)
   \<and> stageBirthMetrics intNumbers ''A'' (birthMetrics ! 1 # drop 2 birthMetrics) emptyStaged
       = stageBirthMetrics intNumbers ''A'' (drop 2 birthMetrics) emptyStaged"
proof -
  let ?st' = "\<lparr> newDevices = [\<lparr> nd_deviceName = ''A'', nd_topic = ''spBv1.0/g/STATE/h/DBIRTH/n/A'',
                            nd_birthTimestamp = 999 \<rparr>],
           newMetrics = [(''A'', ''temp''), (''A'', ''7'')],
           metricValues =
             [\<lparr> mv_metricId = ''A/temp'', mv_ts = 1000, mv_value = VNumber 21, mv_fromBirth = True \<rparr>,
              \<lparr> mv_metricId = ''A/7'', mv_ts = 1001, mv_value = VBoolean True,
                 mv_fromBirth = True \<rparr>] \<rparr> :: int staged"
  have h1: "ev_type birthEvent = DBIRTH" by (simp add: birthEvent_def)
  have h2: "deviceId (parseCertificateTopic (ev_topic birthEvent)) = Some ''A''"
    by (simp add: birthEvent_def parseCertificateTopic_def parseTopic_def js_index_def Let_def)
  have h3: "stageEvent intNumbers birthEvent emptyStaged = Inr ?st'" by (rule birthEvent_staged)
  have h4: "getMetricValue intNumbers (birthMetrics ! 1) = Inr VNull"
    by (rule birthMetrics_values)
  from unusable_metrics_not_staged [of birthEvent intNumbers emptyStaged ?st' "''A''"
      "birthMetrics ! 1" "''A''" "drop 2 birthMetrics" emptyStaged] h1 h2 h3 h4
  have c: "newMetrics ?st' =
        newMetrics (emptyStaged :: int staged)
          @ map (\<lambda>m. (''A'', rowName intNumbers m))
              (filter (retained intNumbers) (payloadMetrics (ev_payload birthEvent)))"
    and d: "\<not> retained intNumbers (birthMetrics ! 1)
      \<and> stageBirthMetrics intNumbers ''A'' (birthMetrics ! 1 # drop 2 birthMetrics) emptyStaged
       = stageBirthMetrics intNumbers ''A'' (drop 2 birthMetrics) emptyStaged"
    by simp_all
  from c have e: "map (\<lambda>m. (''A'', rowName intNumbers m))
        (filter (retained intNumbers) (payloadMetrics (ev_payload birthEvent)))
       = [(''A'', ''temp''), (''A'', ''7'')]"
    by (simp add: emptyStaged_def)
  have "\<exists>st'. stageEvent intNumbers birthEvent emptyStaged = Inr st'
         \<and> newMetrics st' = [(''A'', ''temp''), (''A'', ''7'')]
         \<and> map mv_metricId (metricValues st') = [''A/temp'', ''A/7'']"
    using h3 by simp
  with h1 h2 e h4 d show ?thesis by simp
qed

section \<open>Codec: compression round trip\<close>







section \<open>Message handler: decode failures\<close>

text \<open>
  Claim C3 does not hold for the compressed envelope. A message whose payload decodes to
  an envelope with the compressed marker and the algorithm \<open>LZ4\<close>, or whose body the
  decompressor rejects, makes \<^verbatim>\<open>maybeDecompressPayload\<close> throw outside the
  \<^verbatim>\<open>try\<close> block: the exception leaves the listener instead of the message being
  dropped. Only a failure of the first decode is dropped.
\<close>

theorem handleMessage_uncaught:
  "handleMessage
     (C\<lparr> sp_decode := \<lambda>b. Inr \<lparr> p_timestamp = None,
            p_metrics = Some [UMetric (Some ''algorithm'') None ''String'' (VString ''LZ4'') None],
            p_seq = None, p_uuid = Some compressed, p_body = Some body \<rparr> \<rparr>) topic message
     = Uncaught (Error ''Unknown or unsupported algorithm LZ4'')
   \<and> handleMessage
     (C\<lparr> sp_decode := \<lambda>b. Inr \<lparr> p_timestamp = None, p_metrics = Some [],
            p_seq = None, p_uuid = Some compressed, p_body = Some body \<rparr>,
         pako_inflate := \<lambda>b. Inl e \<rparr>) topic message
     = Uncaught e
   \<and> handleMessage (C\<lparr> sp_decode := \<lambda>b. Inl e \<rparr>) topic message = Dropped"
  by (simp add: handleMessage_def decodePayload_def maybeDecompressPayload_def
      decompressPayload_def payloadMetrics_def toUpperCase_def upperChar_def)

section \<open>Stored values: round trip\<close>

lemma numericPattern_chars:
  assumes "numericPattern s"
  shows "s \<noteq> [] \<and> set s \<subseteq> numericChars"
proof -
  define body where
    "body = (case s of [] \<Rightarrow> [] | c # r \<Rightarrow> if c = CHR ''+'' \<or> c = CHR ''-'' then r else s)"
  from assms have ip: "takeWhile isDigit body \<noteq> []"
    and rest: "(case dropWhile isDigit body of [] \<Rightarrow> True
          | d # frac \<Rightarrow> d = CHR ''.'' \<and> frac \<noteq> [] \<and> list_all isDigit frac)"
    unfolding numericPattern_def body_def [symmetric] by (simp_all add: Let_def)
  have dig: "\<And>c. isDigit c \<Longrightarrow> c \<in> numericChars"
    by (simp add: isDigit_def numericChars_def)
  have sym: "CHR ''.'' \<in> numericChars" "CHR ''+'' \<in> numericChars" "CHR ''-'' \<in> numericChars"
    by (simp_all add: numericChars_def)
  have t: "set (takeWhile isDigit body) \<subseteq> numericChars"
    using dig by (meson set_takeWhileD subsetI)
  have d: "set (dropWhile isDigit body) \<subseteq> numericChars"
  proof (cases "dropWhile isDigit body")
    case Nil
    show ?thesis unfolding Nil by simp
  next
    case (Cons x frac)
    with rest have "x = CHR ''.''" and "list_all isDigit frac" by simp_all
    then have "x \<in> numericChars" and "set frac \<subseteq> numericChars"
      using sym dig by (auto simp only: list_all_iff)
    with Cons show ?thesis by simp
  qed
  have "set body = set (takeWhile isDigit body) \<union> set (dropWhile isDigit body)"
    by (metis set_append takeWhile_dropWhile_id)
  with t d have b: "set body \<subseteq> numericChars" by simp
  have ne: "body \<noteq> []" using ip by (cases body) simp_all
  show ?thesis
  proof (cases s)
    case Nil
    with ne show ?thesis by (simp add: body_def)
  next
    case (Cons c r)
    show ?thesis
    proof (cases "c = CHR ''+'' \<or> c = CHR ''-''")
      case True
      then have "body = r" by (simp add: body_def Cons)
      with b True sym Cons show ?thesis by (auto simp only: list.set list.distinct)
    next
      case False
      then have "body = s" by (simp add: body_def Cons)
      with b Cons show ?thesis by simp
    qed
  qed
qed

lemma numericPattern_trim:
  assumes "numericPattern s"
  shows "js_trim s = s \<and> s \<noteq> ''true'' \<and> s \<noteq> ''false''"
proof -
  from numericPattern_chars [OF assms] have ch: "set s \<subseteq> numericChars" by simp
  have nw: "\<And>c. c \<in> numericChars \<Longrightarrow> \<not> isWhitespace c"
    unfolding numericChars_def isWhitespace_def by fastforce
  have keep: "\<And>xs. \<forall>c \<in> set xs. \<not> isWhitespace c \<Longrightarrow> dropWhile isWhitespace xs = xs"
    by (case_tac xs) simp_all
  have "\<forall>c \<in> set s. \<not> isWhitespace c" using ch nw by blast
  then have tr: "js_trim s = s" by (simp add: js_trim_def keep)
  have "CHR ''t'' \<notin> numericChars" "CHR ''f'' \<notin> numericChars"
    by (simp_all add: numericChars_def)
  with ch have "s \<noteq> ''true''" "s \<noteq> ''false''" by auto
  with tr show ?thesis by simp
qed

text \<open>
  Claim C9. Writing and reading back returns every boolean unchanged. It returns a
  number \<open>n\<close> unchanged when the rendering \<^verbatim>\<open>String(n)\<close> passes the numeric test,
  given the language's guarantee for such a number that \<^verbatim>\<open>Number(String(n))\<close> is
  \<open>n\<close> and that \<open>n\<close> is not \<^verbatim>\<open>NaN\<close> (negative zero renders as \<open>0\<close> and comes back
  as zero, which \<^verbatim>\<open>===\<close> does not tell apart): the trimming and the tests for \<open>true\<close>
  and \<open>false\<close> do not touch such a rendering. It is not the identity on strings: the
  strings \<open>true\<close> and \<open>false\<close> come back as booleans, and a string that passes the
  numeric test comes back as the number it denotes.
\<close>

theorem stored_roundtrip:
  "storedRoundTrip J (FBoolean b) = FBoolean b
   \<and> (numericPattern (number_toString J n)
        \<and> string_toNumber J (number_toString J n) = n \<and> \<not> number_isNaN J n
       \<longrightarrow> storedRoundTrip J (FNumber n) = FNumber n)
   \<and> storedRoundTrip J (FString ''true'') = FBoolean True
   \<and> storedRoundTrip J (FString ''false'') = FBoolean False
   \<and> (numericPattern s \<and> \<not> number_isNaN J (string_toNumber J s)
       \<longrightarrow> storedRoundTrip J (FString s) = FNumber (string_toNumber J s))
   \<and> storedRoundTrip J FNull = FNull"
proof (intro conjI impI)
  show "storedRoundTrip J (FBoolean b) = FBoolean b"
    by (cases b)
      (simp_all add: storedRoundTrip_def toStoredValue_def columnValue_def parseStoredValue_def
        js_trim_def isWhitespace_def)
next
  assume a: "numericPattern (number_toString J n)
        \<and> string_toNumber J (number_toString J n) = n \<and> \<not> number_isNaN J n"
  then show "storedRoundTrip J (FNumber n) = FNumber n"
    using numericPattern_trim [of "number_toString J n"]
    by (simp add: storedRoundTrip_def toStoredValue_def columnValue_def parseStoredValue_def)
next
  show "storedRoundTrip J (FString ''true'') = FBoolean True"
    by (simp add: storedRoundTrip_def toStoredValue_def columnValue_def parseStoredValue_def
        js_trim_def isWhitespace_def)
next
  show "storedRoundTrip J (FString ''false'') = FBoolean False"
    by (simp add: storedRoundTrip_def toStoredValue_def columnValue_def parseStoredValue_def
        js_trim_def isWhitespace_def)
next
  assume "numericPattern s \<and> \<not> number_isNaN J (string_toNumber J s)"
  then show "storedRoundTrip J (FString s) = FNumber (string_toNumber J s)"
    using numericPattern_trim [of s]
    by (simp add: storedRoundTrip_def toStoredValue_def columnValue_def parseStoredValue_def)
next
  show "storedRoundTrip J FNull = FNull"
    by (simp add: storedRoundTrip_def toStoredValue_def columnValue_def parseStoredValue_def)
qed

text \<open>The witness, on the integers: the number 42 and the string \<open>17\<close>.\<close>

theorem stored_roundtrip_witness:
  "numericPattern (number_toString intNumbers 42)
   \<and> string_toNumber intNumbers (number_toString intNumbers 42) = 42
   \<and> \<not> number_isNaN intNumbers 42
   \<and> storedRoundTrip intNumbers (FNumber 42) = FNumber 42
   \<and> numericPattern ''17''
   \<and> \<not> number_isNaN intNumbers (string_toNumber intNumbers ''17'')
   \<and> storedRoundTrip intNumbers (FString ''17'') = FNumber 17"
proof -
  have r: "number_toString intNumbers 42 = ''42''"
    by (simp add: intNumbers_def int_toString_def decimal.simps)
  have p: "numericPattern ''42''" "numericPattern ''17''"
    by (simp_all add: numericPattern_def isDigit_def)
  have n: "string_toNumber intNumbers ''42'' = 42" "string_toNumber intNumbers ''17'' = 17"
    by (simp_all add: intNumbers_def int_ofString_def digitsValue_def)
  have nan: "\<And>x. \<not> number_isNaN intNumbers x" by (simp add: intNumbers_def)
  from stored_roundtrip [of intNumbers True 42 "''17''"] r p n nan
  have "storedRoundTrip intNumbers (FNumber 42) = FNumber 42
      \<and> storedRoundTrip intNumbers (FString ''17'') = FNumber 17"
    by simp
  with r p n nan show ?thesis by simp
qed

section \<open>Status classifier\<close>

lemma sql_max_Max: "sql_max xs = (if xs = [] then None else Some (Max (set xs)))"
  by (induction xs) (auto simp: max_def split: option.splits)

text \<open>The rows behind the timestamps: the joins of the two queries.\<close>

lemma deviceValueTimes_rows:
  "set (deviceValueTimes db name) =
     {v_ts v | v m. m \<in> set (device_metrics db) \<and> dm_device_name m = name
                   \<and> v \<in> set (device_metric_values db) \<and> v_metric_id v = dm_id m}"
  by (auto simp: deviceValueTimes_def)

lemma metricValueTimes_rows:
  "set (metricValueTimes db device name) =
     {v_ts v | v m. m \<in> set (device_metrics db) \<and> dm_device_name m = device
                   \<and> dm_metric_name m = name
                   \<and> v \<in> set (device_metric_values db) \<and> v_metric_id v = dm_id m}"
  by (auto simp: metricValueTimes_def)

text \<open>
  In a session in UTC the colour is grey without a value, green for an age \<open>now - t\<close> of
  at most one day, yellow for at most seven days and red beyond; 23 hours is green and
  25 hours yellow. In both scopes the answer has one colour for each name asked for,
  that of the largest timestamp the joins reach.
\<close>

lemma status_in_utc:
  "statusCase 0 None now = grey"
  "statusCase 0 (Some t) now =
     (if now - t \<le> day then green else if now - t \<le> 7 * day then yellow else red)"
  "statusCase 0 (Some (now - 23 * hour)) now = green"
  "statusCase 0 (Some (now - 25 * hour)) now = yellow"
  by (auto simp: statusCase_def day_def hour_def)

lemma status_rows:
  "dom (devicesStatus db zone now query) = set (requestList query)"
  "name \<in> set (requestList query) \<Longrightarrow>
     devicesStatus db zone now query name =
       Some (statusCase zone (if deviceValueTimes db name = [] then None
                               else Some (Max (set (deviceValueTimes db name)))) now)"
  "dom (metricsStatus db zone now device query) = set (requestList query)"
  "name \<in> set (requestList query) \<Longrightarrow>
     metricsStatus db zone now device query name =
       Some (statusCase zone (if metricValueTimes db device name = [] then None
                               else Some (Max (set (metricValueTimes db device name)))) now)"
  by (auto simp: devicesStatus_def metricsStatus_def Let_def sql_max_Max dom_def
      split: if_splits)

text \<open>
  Claim C6 does not hold in every session. The colour depends on the time zone of the
  session: a latest value exactly 23 hours old is green in a session in UTC and yellow in
  a session nine hours east of UTC (\<open>Asia/Tokyo\<close>), where the stored UTC time is read as
  a local time and so as nine hours older; in the device scope and in the metric scope
  alike, here for device \<open>A\<close> and its metric \<open>temp\<close> in \<open>sampleDb\<close>, evaluated at day 1000.
\<close>

theorem status_depends_on_session_zone:
  "statusCase (9 * hour) (Some (now - 23 * hour)) now = yellow
   \<and> statusCase 0 (Some (now - 23 * hour)) now = green
   \<and> sql_max (deviceValueTimes sampleDb ''A'') = Some (1000 * day - 23 * hour)
   \<and> devicesStatus sampleDb (9 * hour) (1000 * day) ''A, B'' ''A'' = Some yellow
   \<and> devicesStatus sampleDb 0 (1000 * day) ''A, B'' ''A'' = Some green
   \<and> sql_max (metricValueTimes sampleDb ''A'' ''temp'') = Some (1000 * day - 23 * hour)
   \<and> metricsStatus sampleDb (9 * hour) (1000 * day) ''A'' ''temp,rpm'' ''temp'' = Some yellow
   \<and> metricsStatus sampleDb 0 (1000 * day) ''A'' ''temp,rpm'' ''temp'' = Some green"
  by (simp add: devicesStatus_def metricsStatus_def requestList_def js_trim_def
      isWhitespace_def sampleDb_def deviceValueTimes_def metricValueTimes_def statusCase_def
      day_def hour_def Let_def)

section \<open>Batch committer: all or nothing\<close>

lemma runStatement_open:
  "runStatement stmt conn = Inr conn' \<Longrightarrow> working conn \<noteq> None \<Longrightarrow>
     committed conn' = committed conn \<and> working conn' \<noteq> None"
  by (auto simp: runStatement_def split: option.splits sum.splits)

lemma upsertDevices_open:
  "upsertDevices E ds conn = (conn', r) \<Longrightarrow> working conn \<noteq> None \<Longrightarrow>
     committed conn' = committed conn \<and> working conn' \<noteq> None"
proof (induction ds arbitrary: conn)
  case Nil
  then show ?case by simp
next
  case (Cons d ds)
  show ?case
  proof (cases "DeviceRepository_upsert E d conn")
    case (Inl e)
    with Cons.prems show ?thesis by simp
  next
    case (Inr c)
    then have c: "committed c = committed conn \<and> working c \<noteq> None"
      using Cons.prems(2) runStatement_open unfolding DeviceRepository_upsert_def by blast
    from Cons.prems(1) Inr have "upsertDevices E ds c = (conn', r)" by simp
    from Cons.IH [OF this] c show ?thesis by simp
  qed
qed

lemma insertMetrics_open:
  "DeviceMetricRepository_insertMany E rs conn = Inr conn' \<Longrightarrow> working conn \<noteq> None \<Longrightarrow>
     committed conn' = committed conn \<and> working conn' \<noteq> None"
  using runStatement_open
  by (fastforce simp: DeviceMetricRepository_insertMany_def Let_def split: if_splits)

lemma insertValues_open:
  "DeviceMetricValueRepository_insertMany E vs conn = Inr conn' \<Longrightarrow> working conn \<noteq> None \<Longrightarrow>
     committed conn' = committed conn \<and> working conn' \<noteq> None"
  using runStatement_open
  by (fastforce simp: DeviceMetricValueRepository_insertMany_def split: if_splits)

lemma tryBlock_failed:
  assumes "tryBlock E st conn = (c, Some e)" and "working conn \<noteq> None"
  shows "committed c = committed conn \<and> working c \<noteq> None"
proof -
  obtain c1 r1 where u: "upsertDevices E (newDevices st) conn = (c1, r1)" by fastforce
  from upsertDevices_open [OF u assms(2)]
  have c1: "committed c1 = committed conn \<and> working c1 \<noteq> None" .
  show ?thesis
  proof (cases r1)
    case (Some e1)
    with assms(1) u have "c = c1" by (simp add: tryBlock_def)
    with c1 show ?thesis by simp
  next
    case None
    note r1 = None
    show ?thesis
    proof (cases "DeviceMetricRepository_insertMany E (newMetrics st) c1")
      case (Inl e2)
      with assms(1) u r1 have "c = c1" by (simp add: tryBlock_def)
      with c1 show ?thesis by simp
    next
      case (Inr c2)
      from insertMetrics_open [OF Inr] c1
      have c2: "committed c2 = committed conn \<and> working c2 \<noteq> None" by simp
      show ?thesis
      proof (cases "DeviceMetricValueRepository_insertMany E (metricValues st) c2")
        case (Inl e3)
        with assms(1) u r1 Inr have "c = c2" by (simp add: tryBlock_def)
        with c2 show ?thesis by simp
      next
        case (Inr c3)
        note v = Inr
        from insertValues_open [OF Inr] c2
        have c3: "committed c3 = committed conn \<and> working c3 \<noteq> None" by simp
        from assms(1) u r1 \<open>DeviceMetricRepository_insertMany E (newMetrics st) c1 = Inr c2\<close> v
        have "c = c3" by (simp add: tryBlock_def split: sum.splits)
        with c3 show ?thesis by simp
      qed
    qed
  qed
qed

lemma metricRows_nonempty: "records \<noteq> [] \<Longrightarrow> metricRows [] records \<noteq> []"
  by (cases records) (auto simp: Let_def)

lemma upsertDevices_ok:
  "upsertEffect E ds w = Inr w' \<Longrightarrow>
     upsertDevices E ds \<lparr> committed = c, working = Some w \<rparr>
       = (\<lparr> committed = c, working = Some w' \<rparr>, None)"
proof (induction ds arbitrary: w)
  case Nil
  then show ?case by simp
next
  case (Cons d ds)
  from Cons.prems obtain w1 where s: "sql_upsertDevice E d w = Inr w1"
    and r: "upsertEffect E ds w1 = Inr w'"
    by (auto split: sum.splits)
  from s have "DeviceRepository_upsert E d \<lparr> committed = c, working = Some w \<rparr>
      = Inr \<lparr> committed = c, working = Some w1 \<rparr>"
    by (simp add: DeviceRepository_upsert_def runStatement_def)
  with Cons.IH [OF r] show ?case by simp
qed

lemma upsertDevices_error:
  "upsertEffect E ds w = Inl e \<Longrightarrow>
     snd (upsertDevices E ds \<lparr> committed = c, working = Some w \<rparr>) = Some e"
proof (induction ds arbitrary: w)
  case Nil
  then show ?case by simp
next
  case (Cons d ds)
  show ?case
  proof (cases "sql_upsertDevice E d w")
    case (Inl e1)
    with Cons.prems have "e1 = e" by simp
    with Inl show ?thesis by (simp add: DeviceRepository_upsert_def runStatement_def)
  next
    case (Inr w1)
    with Cons.prems have r: "upsertEffect E ds w1 = Inl e" by simp
    from Inr have "DeviceRepository_upsert E d \<lparr> committed = c, working = Some w \<rparr>
        = Inr \<lparr> committed = c, working = Some w1 \<rparr>"
      by (simp add: DeviceRepository_upsert_def runStatement_def)
    with Cons.IH [OF r] show ?thesis by simp
  qed
qed

lemma insertMetrics_effect:
  "DeviceMetricRepository_insertMany E records \<lparr> committed = c, working = Some w \<rparr> =
     (case (if records = [] then Inr w else sql_insertMetrics E (metricRows [] records) w) of
        Inl e \<Rightarrow> Inl e
      | Inr w' \<Rightarrow> Inr \<lparr> committed = c, working = Some w' \<rparr>)"
  using metricRows_nonempty [of records]
  by (simp add: DeviceMetricRepository_insertMany_def runStatement_def Let_def split: sum.splits)

lemma insertValues_effect:
  "DeviceMetricValueRepository_insertMany E vals \<lparr> committed = c, working = Some w \<rparr> =
     (case (if vals = [] then Inr w else sql_insertValues E vals w) of
        Inl e \<Rightarrow> Inl e
      | Inr w' \<Rightarrow> Inr \<lparr> committed = c, working = Some w' \<rparr>)"
  by (simp add: DeviceMetricValueRepository_insertMany_def runStatement_def split: sum.splits)

lemma commitTransaction_effect:
  "commitTransaction E \<lparr> committed = c, working = Some w \<rparr> =
     (case sql_commit E w of
        Inl e \<Rightarrow> Inl e
      | Inr db \<Rightarrow> Inr \<lparr> committed = db, working = None \<rparr>)"
  by (simp add: commitTransaction_def)

lemma tryBlock_ok:
  assumes "batchEffect E st w = Inr db"
  shows "tryBlock E st \<lparr> committed = c, working = Some w \<rparr>
           = (\<lparr> committed = db, working = None \<rparr>, None)"
proof -
  from assms obtain w1 w2 w3 where
    1: "upsertEffect E (newDevices st) w = Inr w1" and
    2: "(if newMetrics st = [] then Inr w1
         else sql_insertMetrics E (metricRows [] (newMetrics st)) w1) = Inr w2" and
    3: "(if metricValues st = [] then Inr w2
         else sql_insertValues E (metricValues st) w2) = Inr w3" and
    4: "sql_commit E w3 = Inr db"
    unfolding batchEffect_def by (auto split: sum.splits)
  have a: "upsertDevices E (newDevices st) \<lparr> committed = c, working = Some w \<rparr>
      = (\<lparr> committed = c, working = Some w1 \<rparr>, None)"
    by (rule upsertDevices_ok [OF 1])
  have b: "DeviceMetricRepository_insertMany E (newMetrics st) \<lparr> committed = c, working = Some w1 \<rparr>
      = Inr \<lparr> committed = c, working = Some w2 \<rparr>"
    unfolding insertMetrics_effect 2 by simp
  have d: "DeviceMetricValueRepository_insertMany E (metricValues st)
        \<lparr> committed = c, working = Some w2 \<rparr> = Inr \<lparr> committed = c, working = Some w3 \<rparr>"
    unfolding insertValues_effect 3 by simp
  have e: "commitTransaction E \<lparr> committed = c, working = Some w3 \<rparr>
      = Inr \<lparr> committed = db, working = None \<rparr>"
    unfolding commitTransaction_effect 4 by simp
  show ?thesis unfolding tryBlock_def a by (simp add: b d e)
qed

lemma tryBlock_error:
  assumes "batchEffect E st w = Inl e"
  shows "snd (tryBlock E st \<lparr> committed = c, working = Some w \<rparr>) = Some e"
proof (cases "upsertEffect E (newDevices st) w")
  case (Inl e1)
  with assms have "e1 = e" by (simp add: batchEffect_def)
  with upsertDevices_error [OF Inl, of c] show ?thesis
    by (cases "upsertDevices E (newDevices st) \<lparr> committed = c, working = Some w \<rparr>")
       (simp add: tryBlock_def)
next
  case (Inr w1)
  note a = upsertDevices_ok [OF Inr, of c]
  let ?m = "if newMetrics st = [] then Inr w1
            else sql_insertMetrics E (metricRows [] (newMetrics st)) w1"
  show ?thesis
  proof (cases ?m)
    case (Inl e2)
    with assms Inr have "e2 = e" by (simp add: batchEffect_def)
    moreover have "DeviceMetricRepository_insertMany E (newMetrics st)
        \<lparr> committed = c, working = Some w1 \<rparr> = Inl e2"
      unfolding insertMetrics_effect Inl by simp
    ultimately show ?thesis unfolding tryBlock_def a by simp
  next
    case (Inr w2)
    note m = Inr
    have b: "DeviceMetricRepository_insertMany E (newMetrics st)
        \<lparr> committed = c, working = Some w1 \<rparr> = Inr \<lparr> committed = c, working = Some w2 \<rparr>"
      unfolding insertMetrics_effect m by simp
    let ?v = "if metricValues st = [] then Inr w2
              else sql_insertValues E (metricValues st) w2"
    show ?thesis
    proof (cases ?v)
      case (Inl e3)
      with assms \<open>upsertEffect E (newDevices st) w = Inr w1\<close> m have "e3 = e"
        by (simp add: batchEffect_def)
      moreover have "DeviceMetricValueRepository_insertMany E (metricValues st)
          \<lparr> committed = c, working = Some w2 \<rparr> = Inl e3"
        unfolding insertValues_effect Inl by simp
      ultimately show ?thesis unfolding tryBlock_def a by (simp add: b)
    next
      case (Inr w3)
      have d: "DeviceMetricValueRepository_insertMany E (metricValues st)
          \<lparr> committed = c, working = Some w2 \<rparr> = Inr \<lparr> committed = c, working = Some w3 \<rparr>"
        unfolding insertValues_effect Inr by simp
      from assms \<open>upsertEffect E (newDevices st) w = Inr w1\<close> m Inr
      have "sql_commit E w3 = Inl e" by (simp add: batchEffect_def)
      then have "commitTransaction E \<lparr> committed = c, working = Some w3 \<rparr> = Inl e"
        unfolding commitTransaction_effect by simp
      then show ?thesis unfolding tryBlock_def a by (simp add: b d)
    qed
  qed
qed

text \<open>
  Claim C2. On a connection with no transaction open, the committer does all of the
  batch or nothing of it. When the upserts, the two inserts and \<^verbatim>\<open>COMMIT\<close> succeed
  one after the other on the data, it returns the connection whose committed data is
  their combined result, with no transaction open and \<open>failed\<close> false: the three steps
  take effect together, at the commit. When one of them fails it returns the
  connection it was given, unchanged, with \<open>failed\<close> true: nothing of the batch is
  stored. It always returns; \<open>failed\<close> holds exactly when the \<^verbatim>\<open>try\<close> block threw, and
  the block succeeds only through all four steps. When the transaction has settled,
  whatever its outcome, the drain loop only takes events off the queues: the batch is
  not put back.
\<close>

theorem commit_all_or_nothing:
  "(working conn = None \<longrightarrow>
      commitStaged E st conn =
        (case batchEffect E st (committed conn) of
           Inr db \<Rightarrow> Inr (\<lparr> committed = db, working = None \<rparr>, False)
         | Inl e \<Rightarrow> Inr (conn, True)))
   \<and> (working conn = None \<longrightarrow>
      (\<exists>conn' failed.
          commitStaged E st conn = Inr (conn', failed)
          \<and> working conn' = None
          \<and> (failed \<longrightarrow> conn' = conn)
          \<and> failed = (snd (tryBlock E st (conn\<lparr>working := Some (committed conn)\<rparr>)) \<noteq> None)))
   \<and> (snd (tryBlock E st c0) = None \<longrightarrow>
        (\<exists>c1 c2 c3 c4.
            upsertDevices E (newDevices st) c0 = (c1, None)
            \<and> DeviceMetricRepository_insertMany E (newMetrics st) c1 = Inr c2
            \<and> DeviceMetricValueRepository_insertMany E (metricValues st) c2 = Inr c3
            \<and> commitTransaction E c3 = Inr c4))
   \<and> (\<exists>k. birthQueue (step s BatchSettled) = drop k (birthQueue s))
   \<and> (\<exists>k. dataQueue (step s BatchSettled) = drop k (dataQueue s))"
proof (intro conjI impI)
  assume idle: "working conn = None"
  let ?c0 = "conn\<lparr>working := Some (committed conn)\<rparr>"
  have c0: "?c0 = \<lparr> committed = committed conn, working = Some (committed conn) \<rparr>" by simp
  have conn: "conn = \<lparr> committed = committed conn, working = None \<rparr>" using idle by simp
  have b: "beginTransaction conn = Inr ?c0" using idle by (simp add: beginTransaction_def)
  show "commitStaged E st conn =
        (case batchEffect E st (committed conn) of
           Inr db \<Rightarrow> Inr (\<lparr> committed = db, working = None \<rparr>, False)
         | Inl e \<Rightarrow> Inr (conn, True))"
  proof (cases "batchEffect E st (committed conn)")
    case (Inr db)
    then have "tryBlock E st ?c0 = (\<lparr> committed = db, working = None \<rparr>, None)"
      unfolding c0 by (rule tryBlock_ok)
    with b Inr show ?thesis by (simp add: commitStaged_def)
  next
    case (Inl e)
    then have "snd (tryBlock E st ?c0) = Some e"
      unfolding c0 by (rule tryBlock_error)
    then obtain c where t: "tryBlock E st ?c0 = (c, Some e)"
      by (cases "tryBlock E st ?c0") simp
    from tryBlock_failed [OF t] have c: "committed c = committed conn" "working c \<noteq> None"
      by simp_all
    then obtain w where w: "working c = Some w" by blast
    have "c\<lparr>working := None\<rparr> = conn" using c(1) idle by simp
    with b t w Inl show ?thesis by (simp add: commitStaged_def rollbackTransaction_def)
  qed
next
  assume idle: "working conn = None"
  let ?c0 = "conn\<lparr>working := Some (committed conn)\<rparr>"
  have b: "beginTransaction conn = Inr ?c0" using idle by (simp add: beginTransaction_def)
  obtain c r where t: "tryBlock E st ?c0 = (c, r)" by fastforce
  show "\<exists>conn' failed.
          commitStaged E st conn = Inr (conn', failed)
          \<and> working conn' = None
          \<and> (failed \<longrightarrow> conn' = conn)
          \<and> failed = (snd (tryBlock E st ?c0) \<noteq> None)"
  proof (cases r)
    case None
    then have res: "commitStaged E st conn = Inr (c, False)"
      using b t by (simp add: commitStaged_def)
    have "working c = None"
      using t None
      by (auto simp: tryBlock_def commitTransaction_def split: prod.splits option.splits sum.splits)
    with res t None show ?thesis by auto
  next
    case (Some e)
    from tryBlock_failed [of E st ?c0 c e] t Some
    have c: "committed c = committed conn" "working c \<noteq> None" by simp_all
    then obtain w where w: "working c = Some w" by blast
    have "c\<lparr>working := None\<rparr> = conn" using c(1) idle by simp
    then have "commitStaged E st conn = Inr (conn, True)"
      using b t Some w by (simp add: commitStaged_def rollbackTransaction_def)
    with t Some idle show ?thesis by auto
  qed
next
  assume "snd (tryBlock E st c0) = None"
  then show "\<exists>c1 c2 c3 c4.
            upsertDevices E (newDevices st) c0 = (c1, None)
            \<and> DeviceMetricRepository_insertMany E (newMetrics st) c1 = Inr c2
            \<and> DeviceMetricValueRepository_insertMany E (metricValues st) c2 = Inr c3
            \<and> commitTransaction E c3 = Inr c4"
    by (auto simp: tryBlock_def split: prod.splits option.splits sum.splits)
next
  show "\<exists>k. birthQueue (step s BatchSettled) = drop k (birthQueue s)"
    by (simp add: drainLoop_cases) (metis drop0)
  show "\<exists>k. dataQueue (step s BatchSettled) = drop k (dataQueue s)"
    by (simp add: drainLoop_cases) (metis drop0)
qed

lemma birthEvent_staged_from:
  "stageEvent intNumbers birthEvent st =
     Inr (st\<lparr> newDevices := newDevices st @ newDevices once,
              newMetrics := newMetrics st @ newMetrics once,
              metricValues := metricValues st @ metricValues once \<rparr>)"
  using birthMetrics_values [of intNumbers]
  by (simp add: stageEvent_def birthEvent_def parseCertificateTopic_def parseTopic_def js_index_def
      Let_def ts_def payloadMetrics_def birthMetrics_def resolveMetricName_def
      Long_toInt_def dec7 metricId_def once_def)

lemma batches_staged:
  "stageBatch intNumbers [birthEvent] emptyStaged = Inr once"
  "stageBatch intNumbers [birthEvent, birthEvent] emptyStaged = Inr twice"
  by (simp_all add: birthEvent_staged_from emptyStaged_def once_def twice_def)

lemma commit_once:
  "commitStaged tableEngine once (idle emptyDatabase) =
     Inr (idle \<lparr> devices =
                   [\<lparr> d_device_name = ''A'', d_topic = ''spBv1.0/g/STATE/h/DBIRTH/n/A'',
                      d_birth_timestamp = Some 999000 \<rparr>],
                 device_metrics =
                   [\<lparr> dm_id = ''A/temp'', dm_device_name = ''A'', dm_metric_name = ''temp'' \<rparr>,
                    \<lparr> dm_id = ''A/7'', dm_device_name = ''A'', dm_metric_name = ''7'' \<rparr>],
                 device_metric_values =
                   [\<lparr> v_metric_id = ''A/temp'', v_ts = 1000000, v_value = Some ''21'',
                      v_from_birth = True \<rparr>,
                    \<lparr> v_metric_id = ''A/7'', v_ts = 1001000, v_value = Some ''true'',
                      v_from_birth = True \<rparr>] \<rparr>, False)"
  by (simp add: commitStaged_def beginTransaction_def idle_def tryBlock_def once_def
      DeviceRepository_upsert_def runStatement_def tableEngine_def emptyDatabase_def
      DeviceMetricRepository_insertMany_def DeviceMetricValueRepository_insertMany_def
      metricId_def Let_def valueRow_def storedText_def toStoredValue_def intNumbers_def
      int_toString_def decimal.simps commitTransaction_def)

lemma try_twice:
  "tryBlock tableEngine twice ((idle emptyDatabase)\<lparr>working := Some emptyDatabase\<rparr>) =
     (\<lparr> committed = emptyDatabase,
        working = Some \<lparr> devices =
                   [\<lparr> d_device_name = ''A'', d_topic = ''spBv1.0/g/STATE/h/DBIRTH/n/A'',
                      d_birth_timestamp = Some 999000 \<rparr>],
                 device_metrics =
                   [\<lparr> dm_id = ''A/temp'', dm_device_name = ''A'', dm_metric_name = ''temp'' \<rparr>,
                    \<lparr> dm_id = ''A/7'', dm_device_name = ''A'', dm_metric_name = ''7'' \<rparr>],
                 device_metric_values = [] \<rparr> \<rparr>,
      Some (Error ''Constraint Error: duplicate key''))"
  by (simp add: idle_def tryBlock_def once_def twice_def
      DeviceRepository_upsert_def runStatement_def tableEngine_def emptyDatabase_def
      DeviceMetricRepository_insertMany_def DeviceMetricValueRepository_insertMany_def
      metricId_def Let_def valueRow_def storedText_def toStoredValue_def intNumbers_def
      int_toString_def decimal.simps commitTransaction_def)

lemma try_once:
  "snd (tryBlock tableEngine once ((idle emptyDatabase)\<lparr>working := Some emptyDatabase\<rparr>)) = None"
  by (simp add: idle_def tryBlock_def once_def
      DeviceRepository_upsert_def runStatement_def tableEngine_def emptyDatabase_def
      DeviceMetricRepository_insertMany_def DeviceMetricValueRepository_insertMany_def
      metricId_def Let_def valueRow_def storedText_def toStoredValue_def intNumbers_def
      int_toString_def decimal.simps commitTransaction_def)

lemma effect_once:
  "batchEffect tableEngine once emptyDatabase =
     Inr \<lparr> devices =
             [\<lparr> d_device_name = ''A'', d_topic = ''spBv1.0/g/STATE/h/DBIRTH/n/A'',
                d_birth_timestamp = Some 999000 \<rparr>],
           device_metrics =
             [\<lparr> dm_id = ''A/temp'', dm_device_name = ''A'', dm_metric_name = ''temp'' \<rparr>,
              \<lparr> dm_id = ''A/7'', dm_device_name = ''A'', dm_metric_name = ''7'' \<rparr>],
           device_metric_values =
             [\<lparr> v_metric_id = ''A/temp'', v_ts = 1000000, v_value = Some ''21'',
                v_from_birth = True \<rparr>,
              \<lparr> v_metric_id = ''A/7'', v_ts = 1001000, v_value = Some ''true'',
                v_from_birth = True \<rparr>] \<rparr>"
  by (simp add: batchEffect_def once_def tableEngine_def emptyDatabase_def
      metricId_def Let_def valueRow_def storedText_def toStoredValue_def intNumbers_def
      int_toString_def decimal.simps)

lemma effect_twice:
  "batchEffect tableEngine twice emptyDatabase = Inl (Error ''Constraint Error: duplicate key'')"
  by (simp add: batchEffect_def once_def twice_def tableEngine_def emptyDatabase_def
      metricId_def Let_def valueRow_def storedText_def toStoredValue_def intNumbers_def
      int_toString_def decimal.simps)

text \<open>
  The witness. The batch with \<open>birthEvent\<close> once is committed whole: the device, the two
  definitions and the two values are stored together. The batch with \<open>birthEvent\<close> twice
  repeats the keys of its value rows, so the third step fails after the device and the
  definitions went into the working copy; the connection afterwards is the empty
  database, with no device and no definition.
\<close>

theorem commit_all_or_nothing_witness:
  "working (idle emptyDatabase) = None
   \<and> stageBatch intNumbers [birthEvent] emptyStaged = Inr once
   \<and> commitStaged tableEngine once (idle emptyDatabase) =
       Inr (idle \<lparr> devices =
                   [\<lparr> d_device_name = ''A'', d_topic = ''spBv1.0/g/STATE/h/DBIRTH/n/A'',
                      d_birth_timestamp = Some 999000 \<rparr>],
                 device_metrics =
                   [\<lparr> dm_id = ''A/temp'', dm_device_name = ''A'', dm_metric_name = ''temp'' \<rparr>,
                    \<lparr> dm_id = ''A/7'', dm_device_name = ''A'', dm_metric_name = ''7'' \<rparr>],
                 device_metric_values =
                   [\<lparr> v_metric_id = ''A/temp'', v_ts = 1000000, v_value = Some ''21'',
                      v_from_birth = True \<rparr>,
                    \<lparr> v_metric_id = ''A/7'', v_ts = 1001000, v_value = Some ''true'',
                      v_from_birth = True \<rparr>] \<rparr>, False)
   \<and> stageBatch intNumbers [birthEvent, birthEvent] emptyStaged = Inr twice
   \<and> tryBlock tableEngine twice ((idle emptyDatabase)\<lparr>working := Some emptyDatabase\<rparr>) =
       (\<lparr> committed = emptyDatabase,
          working = Some \<lparr> devices =
                   [\<lparr> d_device_name = ''A'', d_topic = ''spBv1.0/g/STATE/h/DBIRTH/n/A'',
                      d_birth_timestamp = Some 999000 \<rparr>],
                 device_metrics =
                   [\<lparr> dm_id = ''A/temp'', dm_device_name = ''A'', dm_metric_name = ''temp'' \<rparr>,
                    \<lparr> dm_id = ''A/7'', dm_device_name = ''A'', dm_metric_name = ''7'' \<rparr>],
                 device_metric_values = [] \<rparr> \<rparr>,
        Some (Error ''Constraint Error: duplicate key''))
   \<and> commitStaged tableEngine twice (idle emptyDatabase) = Inr (idle emptyDatabase, True)
   \<and> snd (tryBlock tableEngine once ((idle emptyDatabase)\<lparr>working := Some emptyDatabase\<rparr>)) = None
   \<and> (\<exists>c1 c2 c3 c4.
        upsertDevices tableEngine (newDevices once)
          ((idle emptyDatabase)\<lparr>working := Some emptyDatabase\<rparr>) = (c1, None)
        \<and> DeviceMetricRepository_insertMany tableEngine (newMetrics once) c1 = Inr c2
        \<and> DeviceMetricValueRepository_insertMany tableEngine (metricValues once) c2 = Inr c3
        \<and> commitTransaction tableEngine c3 = Inr c4)"
proof -
  let ?conn = "idle emptyDatabase"
  let ?c0 = "?conn\<lparr>working := Some emptyDatabase\<rparr>"
  have h1: "working ?conn = None" and cm: "committed ?conn = emptyDatabase"
    by (simp_all add: idle_def)
  from commit_all_or_nothing [of ?conn tableEngine once] h1
  have "commitStaged tableEngine once ?conn =
        (case batchEffect tableEngine once (committed ?conn) of
           Inr db \<Rightarrow> Inr (\<lparr> committed = db, working = None \<rparr>, False)
         | Inl e \<Rightarrow> Inr (?conn, True))"
    by blast
  then have a: "commitStaged tableEngine once ?conn =
       Inr (idle \<lparr> devices =
                   [\<lparr> d_device_name = ''A'', d_topic = ''spBv1.0/g/STATE/h/DBIRTH/n/A'',
                      d_birth_timestamp = Some 999000 \<rparr>],
                 device_metrics =
                   [\<lparr> dm_id = ''A/temp'', dm_device_name = ''A'', dm_metric_name = ''temp'' \<rparr>,
                    \<lparr> dm_id = ''A/7'', dm_device_name = ''A'', dm_metric_name = ''7'' \<rparr>],
                 device_metric_values =
                   [\<lparr> v_metric_id = ''A/temp'', v_ts = 1000000, v_value = Some ''21'',
                      v_from_birth = True \<rparr>,
                    \<lparr> v_metric_id = ''A/7'', v_ts = 1001000, v_value = Some ''true'',
                      v_from_birth = True \<rparr>] \<rparr>, False)"
    unfolding cm effect_once by (simp add: idle_def)
  from commit_all_or_nothing [of ?conn tableEngine twice] h1
  have "commitStaged tableEngine twice ?conn =
        (case batchEffect tableEngine twice (committed ?conn) of
           Inr db \<Rightarrow> Inr (\<lparr> committed = db, working = None \<rparr>, False)
         | Inl e \<Rightarrow> Inr (?conn, True))"
    by blast
  then have c: "commitStaged tableEngine twice ?conn = Inr (?conn, True)"
    unfolding cm effect_twice by simp
  from commit_all_or_nothing [of _ tableEngine once ?c0] try_once
  have d: "\<exists>c1 c2 c3 c4.
        upsertDevices tableEngine (newDevices once) ?c0 = (c1, None)
        \<and> DeviceMetricRepository_insertMany tableEngine (newMetrics once) c1 = Inr c2
        \<and> DeviceMetricValueRepository_insertMany tableEngine (metricValues once) c2 = Inr c3
        \<and> commitTransaction tableEngine c3 = Inr c4"
    by blast
  from h1 batches_staged a try_twice c try_once d show ?thesis by simp
qed

end
